theory Spec2Isabelle
  imports Main "HOL-Library.AList" "HOL-Library.Multiset"
    "HOL-Library.Char_ord" "HOL-Library.List_Lexorder"
begin

section \<open>File-based routing for Express: the middleware loader and the route walker\<close>

text \<open>
  The development embeds \<^verbatim>\<open>src/middleware-loader.js\<close> (class \<^verbatim>\<open>MiddlewareLoader\<close>) and
  \<^verbatim>\<open>src/route-loader.js\<close> (\<^verbatim>\<open>registerRoutes\<close>, \<^verbatim>\<open>inspectRoutes\<close>).
  Strings are \<^typ>\<open>string\<close>; file and folder names are taken to be ASCII, which is all
  the regular expressions of the source look at (\<^verbatim>\<open>\w\<close>, the five verbs, the two
  extensions, brackets and separators).
  The file system, the module loader and \<^verbatim>\<open>String.prototype.localeCompare\<close> belong to the
  host: a directory is the list of its entries in \<^verbatim>\<open>readdirSync\<close> order, a file carries what
  importing it yields, and the comparison is a parameter.
\<close>

subsection \<open>JavaScript values and string helpers\<close>

text \<open>
  The values a module can export, as far as the loaders inspect them: truthiness
  (\<^verbatim>\<open>a || b\<close>), \<^verbatim>\<open>typeof\<close> and \<^verbatim>\<open>Array.isArray\<close>. An array holds strings, the declared type
  of a middleware list (\<^verbatim>\<open>string[]\<close>); a function is identified by a number.
\<close>

datatype jsval =
    JUndefined
  | JNull
  | JBool bool
  | JNum int
  | JStr string
  | JArr "string list"
  | JObj
  | JFun nat

fun truthy :: "jsval \<Rightarrow> bool" where
  "truthy JUndefined = False"
| "truthy JNull = False"
| "truthy (JBool b) = b"
| "truthy (JNum n) = (n \<noteq> 0)"
| "truthy (JStr s) = (s \<noteq> [])"
| "truthy (JArr xs) = True"
| "truthy JObj = True"
| "truthy (JFun f) = True"

fun typeof :: "jsval \<Rightarrow> string" where
  "typeof JUndefined = ''undefined''"
| "typeof JNull = ''object''"
| "typeof (JBool b) = ''boolean''"
| "typeof (JNum n) = ''number''"
| "typeof (JStr s) = ''string''"
| "typeof (JArr xs) = ''object''"
| "typeof JObj = ''object''"
| "typeof (JFun f) = ''function''"


definition js_or :: "jsval \<Rightarrow> jsval \<Rightarrow> jsval" where
  "js_or a b = (if truthy a then a else b)"

fun starts_with :: "string \<Rightarrow> string \<Rightarrow> bool" where
  "starts_with [] s = True"
| "starts_with (p # ps) [] = False"
| "starts_with (p # ps) (c # cs) = (p = c \<and> starts_with ps cs)"

definition ends_with :: "string \<Rightarrow> string \<Rightarrow> bool" where
  "ends_with suf s = starts_with (rev suf) (rev s)"

text \<open>\<^verbatim>\<open>s.includes(sub)\<close>.\<close>

fun includes_str :: "string \<Rightarrow> string \<Rightarrow> bool" where
  "includes_str sub [] = starts_with sub []"
| "includes_str sub (c # cs) = (starts_with sub (c # cs) \<or> includes_str sub cs)"

text \<open>\<^verbatim>\<open>s.replace(sub, "")\<close> for a literal pattern without the \<^verbatim>\<open>g\<close> flag: the first occurrence goes.\<close>

fun remove_first :: "string \<Rightarrow> string \<Rightarrow> string" where
  "remove_first sub [] = []"
| "remove_first sub (c # cs) =
     (if starts_with sub (c # cs) then drop (length sub) (c # cs)
      else c # remove_first sub cs)"

text \<open>\<^verbatim>\<open>/\.(js|ts)$/\<close>: the test, and the replacement by the empty string.\<close>

definition has_js_ts_ext :: "string \<Rightarrow> bool" where
  "has_js_ts_ext s = (ends_with ''.js'' s \<or> ends_with ''.ts'' s)"

definition strip_js_ts_ext :: "string \<Rightarrow> string" where
  "strip_js_ts_ext s = (if has_js_ts_ext s then take (length s - 3) s else s)"

text \<open>
  \<^verbatim>\<open>path.extname\<close> of Node on the paths the loaders build (\<^verbatim>\<open>dir + "/" + name\<close>): the last
  portion's text from its last dot, empty when there is no dot or the only dot leads.
\<close>

definition basename :: "string \<Rightarrow> string" where
  "basename p = rev (takeWhile (\<lambda>c. c \<noteq> CHR ''/'') (rev p))"

definition extname :: "string \<Rightarrow> string" where
  "extname p =
     (let b = basename p; e = rev (takeWhile (\<lambda>c. c \<noteq> CHR ''.'') (rev b))
      in if CHR ''.'' \<notin> set b \<or> length e + 1 = length b then [] else CHR ''.'' # e)"

definition path_join :: "string \<Rightarrow> string \<Rightarrow> string" where
  "path_join dir name = dir @ ''/'' @ name"

subsection \<open>Errors\<close>

text \<open>
  Every \<^verbatim>\<open>throw new Error(...)\<close> of the two files, one constructor per message, carrying
  the values the message interpolates. \<^verbatim>\<open>inspectRoutes\<close> words three of its messages
  with fewer values than \<^verbatim>\<open>registerRoutes\<close>; they have constructors of their own. Its
  message for a TypeScript file without \<^verbatim>\<open>tsx\<close> is shorter but names the same path, and
  shares the constructor.
  \<open>ModuleError\<close> is whatever evaluating a JavaScript module throws, and \<open>HostError\<close> is
  whatever a route method of the host application throws.
\<close>

datatype error =
    RoutesDirNotFound string
  | CannotLoadTSRoute string
  | CannotLoadTSMiddleware string
  | ModuleError string
  | MiddlewareMustExport string
  | MiddlewareNotFound string "string list"
  | ExtensionConflict string string string string
  | DynamicConflict string string string string
  | InvalidMiddlewares string string
  | NoHandlerExported string
  | HostError string
  | InspectExtensionConflict string string
  | InspectDynamicConflict string string
  | InspectInvalidMiddlewares string

text \<open>What importing a file yields: the module's exports, or the exception of its evaluation.\<close>

datatype 'm source = Evaluates 'm | EvalThrows string

subsection \<open>MiddlewareLoader\<close>

record mw_module =
  mm_default :: jsval
  mm_middleware :: jsval

datatype mw_entry = MwDir string | MwFile string "mw_module source"

text \<open>
  The loader's fields. \<open>middlewareCache\<close> is a JavaScript \<^verbatim>\<open>Map\<close>: keys in insertion
  order, \<^verbatim>\<open>set\<close> on a present key replaces the value in place (\<^const>\<open>AList.update\<close>).
  An element of \<open>globalMiddlewares\<close> is the object \<^verbatim>\<open>{ name, fn }\<close>.
\<close>

record loader =
  middlewareCache :: "(string \<times> jsval) list"
  globalMiddlewares :: "(string \<times> jsval) list"
  loaded :: bool

definition newLoader :: loader where
  "newLoader = \<lparr>middlewareCache = [], globalMiddlewares = [], loaded = False\<rparr>"

definition importMiddleware :: "bool \<Rightarrow> string \<Rightarrow> mw_module source \<Rightarrow> error + mw_module" where
  "importMiddleware tsx filePath src =
     (if extname filePath = ''.ts'' then
        (case (tsx, src) of
           (True, Evaluates m) \<Rightarrow> Inr m
         | _ \<Rightarrow> Inl (CannotLoadTSMiddleware filePath))
      else
        (case src of Evaluates m \<Rightarrow> Inr m | EvalThrows msg \<Rightarrow> Inl (ModuleError msg)))"

text \<open>The body of the \<^verbatim>\<open>for (const file of files)\<close> loop of \<^verbatim>\<open>loadMiddlewares\<close>.\<close>

fun loadFiles :: "bool \<Rightarrow> string \<Rightarrow> mw_entry list \<Rightarrow> loader \<Rightarrow> error option \<times> loader" where
  "loadFiles tsx dir [] ld = (None, ld)"
| "loadFiles tsx dir (MwDir name # es) ld = loadFiles tsx dir es ld"
| "loadFiles tsx dir (MwFile file src # es) ld =
     (if \<not> has_js_ts_ext file then loadFiles tsx dir es ld
      else
        let isGlobal = includes_str ''._global.'' file;
            middlewareName = strip_js_ts_ext (remove_first ''._global'' file)
        in case importMiddleware tsx (path_join dir file) src of
             Inl e \<Rightarrow> (Some e, ld)
           | Inr m \<Rightarrow>
               let middleware = js_or (mm_default m) (mm_middleware m)
               in if \<not> truthy middleware \<or> typeof middleware \<noteq> ''function''
                  then (Some (MiddlewareMustExport file), ld)
                  else loadFiles tsx dir es
                         (ld\<lparr>middlewareCache := AList.update middlewareName middleware (middlewareCache ld),
                             globalMiddlewares :=
                               (if isGlobal then globalMiddlewares ld @ [(middlewareName, middleware)]
                                else globalMiddlewares ld)\<rparr>))"

text \<open>
  \<^verbatim>\<open>Array.prototype.sort\<close> with a comparison function (negative, zero or positive):
  a stable sort, written as the insertion sort that keeps equal elements in their order.
  \<^verbatim>\<open>globalMiddlewares.sort((a, b) => a.name.localeCompare(b.name))\<close> compares the names
  by the host's \<^verbatim>\<open>localeCompare\<close>, the parameter \<open>cmp\<close>.
\<close>

fun insert_by :: "('a \<Rightarrow> 'a \<Rightarrow> int) \<Rightarrow> 'a \<Rightarrow> 'a list \<Rightarrow> 'a list" where
  "insert_by cmp x [] = [x]"
| "insert_by cmp x (y # ys) =
     (if cmp x y \<le> 0 then x # y # ys else y # insert_by cmp x ys)"

definition sort_by :: "('a \<Rightarrow> 'a \<Rightarrow> int) \<Rightarrow> 'a list \<Rightarrow> 'a list" where
  "sort_by cmp xs = foldr (insert_by cmp) xs []"

definition byName :: "(string \<Rightarrow> string \<Rightarrow> int) \<Rightarrow> string \<times> jsval \<Rightarrow> string \<times> jsval \<Rightarrow> int" where
  "byName cmp a b = cmp (fst a) (fst b)"

text \<open>
  \<^verbatim>\<open>loadMiddlewares\<close>. \<open>mwDir\<close> is the listing of \<^verbatim>\<open>src/middlewares\<close>, \<open>None\<close> when the
  directory does not exist. An exception leaves \<open>loaded\<close> false and the list unsorted.
\<close>

definition loadMiddlewares ::
  "(string \<Rightarrow> string \<Rightarrow> int) \<Rightarrow> bool \<Rightarrow> string \<Rightarrow> mw_entry list option \<Rightarrow> loader \<Rightarrow> error option \<times> loader" where
  "loadMiddlewares cmp tsx dir mwDir ld =
     (if loaded ld then (None, ld)
      else case mwDir of
        None \<Rightarrow> (None, ld\<lparr>loaded := True\<rparr>)
      | Some files \<Rightarrow>
          (case loadFiles tsx dir files ld of
             (Some e, ld') \<Rightarrow> (Some e, ld')
           | (None, ld') \<Rightarrow>
               (None, ld'\<lparr>globalMiddlewares := sort_by (byName cmp) (globalMiddlewares ld'), loaded := True\<rparr>)))"

definition skipMarker :: string where
  "skipMarker = ''!_global''"

text \<open>The \<^verbatim>\<open>for (const name of requestedMiddlewares)\<close> loop of \<^verbatim>\<open>resolveMiddlewares\<close>.\<close>

fun lookupAll :: "(string \<times> jsval) list \<Rightarrow> string list \<Rightarrow> jsval list \<Rightarrow> error + jsval list" where
  "lookupAll cache [] result = Inr result"
| "lookupAll cache (name # names) result =
     (case map_of cache name of
        None \<Rightarrow> Inl (MiddlewareNotFound name (map fst cache))
      | Some mw \<Rightarrow> lookupAll cache names (result @ [mw]))"

text \<open>\<^verbatim>\<open>resolveMiddlewares(routeMiddlewares)\<close>; \<open>None\<close> is the omitted argument.\<close>

definition resolveMiddlewares :: "loader \<Rightarrow> string list option \<Rightarrow> error + jsval list" where
  "resolveMiddlewares ld routeMiddlewares =
     (case routeMiddlewares of
        None \<Rightarrow> Inr (map snd (globalMiddlewares ld))
      | Some declared \<Rightarrow>
          if declared = [] then Inr (map snd (globalMiddlewares ld))
          else
            let skipGlobals = (skipMarker \<in> set declared);
                requestedMiddlewares = filter (\<lambda>name. name \<noteq> skipMarker) declared;
                result = (if \<not> skipGlobals then map snd (globalMiddlewares ld) else [])
            in lookupAll (middlewareCache ld) requestedMiddlewares result)"

text \<open>\<^verbatim>\<open>getAvailableMiddlewares()\<close>.\<close>

definition getAvailableMiddlewares :: "loader \<Rightarrow> string list \<times> string list" where
  "getAvailableMiddlewares ld = (map fst (globalMiddlewares ld), map fst (middlewareCache ld))"

subsection \<open>Route paths\<close>

text \<open>\<^verbatim>\<open>prefix.replace(/\/+$/, "")\<close>: the trailing slashes go.\<close>

definition strip_trailing_slashes :: "string \<Rightarrow> string" where
  "strip_trailing_slashes s = rev (dropWhile (\<lambda>c. c = CHR ''/'') (rev s))"

text \<open>\<^verbatim>\<open>.replace(/\\/g, "/")\<close>: every backslash becomes a slash.\<close>

definition backslash_to_slash :: "string \<Rightarrow> string" where
  "backslash_to_slash s = map (\<lambda>c. if c = CHR 0x5C then CHR ''/'' else c) s"

text \<open>\<^verbatim>\<open>.replace(/\/+/g, "/")\<close>: every run of slashes becomes one slash.\<close>

function collapse_slashes :: "string \<Rightarrow> string" where
  "collapse_slashes [] = []"
| "collapse_slashes (c # cs) =
     (if c = CHR ''/'' then CHR ''/'' # collapse_slashes (dropWhile (\<lambda>d. d = CHR ''/'') cs)
      else c # collapse_slashes cs)"
  by pat_completeness auto
termination
  by (relation "measure length") (auto simp: le_imp_less_Suc length_dropWhile_le)

text \<open>
  \<^verbatim>\<open>prefixPath.replace(/\[(.+?)\]/g, ":$1")\<close>. The dot matches any character but a line
  terminator. After an opening bracket, \<open>scan_param\<close> finds the lazy match of
  \<^verbatim>\<open>(.+?)\]\<close>: at least one character, then the first closing bracket that follows;
  it returns the group and the text after the match.
\<close>

definition is_line_terminator :: "char \<Rightarrow> bool" where
  "is_line_terminator c = (c = CHR 0x0A \<or> c = CHR 0x0D)"

fun scan_param :: "string \<Rightarrow> (string \<times> string) option" where
  "scan_param [] = None"
| "scan_param (c # cs) =
     (if is_line_terminator c then None
      else case cs of
        [] \<Rightarrow> None
      | d # ds \<Rightarrow>
          if d = CHR '']'' then Some ([c], ds)
          else map_option (\<lambda>(n, r). (c # n, r)) (scan_param cs))"

lemma scan_param_shorter: "scan_param cs = Some (n, r) \<Longrightarrow> length r < length cs"
proof (induction cs arbitrary: n r)
  case Nil
  then show ?case by simp
next
  case (Cons c cs)
  then show ?case
    by (cases cs) (fastforce split: if_splits)+
qed

function replace_brackets :: "string \<Rightarrow> string" where
  "replace_brackets [] = []"
| "replace_brackets (c # cs) =
     (if c = CHR ''[''
      then (case scan_param cs of
              Some (n, r) \<Rightarrow> CHR '':'' # n @ replace_brackets r
            | None \<Rightarrow> c # replace_brackets cs)
      else c # replace_brackets cs)"
  by pat_completeness auto
termination
  by (relation "measure length") (auto dest: scan_param_shorter)

text \<open>\<^verbatim>\<open>normalizeDynamic\<close>: \<^verbatim>\<open>p.replace(/:\w+/g, ":param")\<close>.\<close>

definition is_word_char :: "char \<Rightarrow> bool" where
  "is_word_char c =
     ((CHR ''a'' \<le> c \<and> c \<le> CHR ''z'') \<or> (CHR ''A'' \<le> c \<and> c \<le> CHR ''Z'')
      \<or> (CHR ''0'' \<le> c \<and> c \<le> CHR ''9'') \<or> c = CHR ''_'')"

function normalizeDynamic :: "string \<Rightarrow> string" where
  "normalizeDynamic [] = []"
| "normalizeDynamic (c # cs) =
     (if c = CHR '':'' \<and> takeWhile is_word_char cs \<noteq> []
      then '':param'' @ normalizeDynamic (dropWhile is_word_char cs)
      else c # normalizeDynamic cs)"
  by pat_completeness auto
termination
  by (relation "measure length") (auto simp: le_imp_less_Suc length_dropWhile_le)

text \<open>\<^verbatim>\<open>toLowerCase\<close> and \<^verbatim>\<open>toUpperCase\<close>, on ASCII.\<close>

definition lowerChar :: "char \<Rightarrow> char" where
  "lowerChar c = (if CHR ''A'' \<le> c \<and> c \<le> CHR ''Z'' then char_of (of_char c + (32::nat)) else c)"

definition upperChar :: "char \<Rightarrow> char" where
  "upperChar c = (if CHR ''a'' \<le> c \<and> c \<le> CHR ''z'' then char_of (of_char c - (32::nat)) else c)"

definition toLowerCase :: "string \<Rightarrow> string" where
  "toLowerCase s = map lowerChar s"

definition toUpperCase :: "string \<Rightarrow> string" where
  "toUpperCase s = map upperChar s"

text \<open>
  \<^verbatim>\<open>item.name.match(/^(GET|POST|PUT|PATCH|DELETE)\.(js|ts)$/i)\<close>: the two groups as the
  file name spells them, when the name matches whatever its letters' case.
\<close>

definition methodMatch :: "string \<Rightarrow> (string \<times> string) option" where
  "methodMatch name =
     (if toLowerCase name \<in> set [m @ ''.'' @ e. m \<leftarrow> [''get'', ''post'', ''put'', ''patch'', ''delete''],
                                               e \<leftarrow> [''js'', ''ts'']]
      then Some (take (length name - 3) name, drop (length name - 2) name)
      else None)"

text \<open>
  The route of a method file below the folders accumulated in \<open>prefixPath\<close>
  (\<^verbatim>\<open>processedPath\<close> and \<^verbatim>\<open>routePath\<close> of \<^verbatim>\<open>walk\<close>).
\<close>

definition routePathOf :: "string \<Rightarrow> string \<Rightarrow> string" where
  "routePathOf normalizedPrefix prefixPath =
     collapse_slashes (backslash_to_slash (normalizedPrefix @ replace_brackets prefixPath))"

subsection \<open>registerRoutes\<close>

record route_module =
  rm_default :: jsval
  rm_handler :: jsval
  rm_middlewares :: jsval

datatype fsitem = Dir string "fsitem list" | File string "route_module source"

text \<open>
  The handler handed to Express: a value the module exports, or the closure
  \<^verbatim>\<open>() => { throw new Error(`No handler exported in ${fullPath}`) }\<close>, which keeps the path.
\<close>

datatype handler = Exported jsval | Substitute string

text \<open>
  Calling a handler: the substitute throws; an exported value takes over (what it does
  is the module author's).
\<close>

fun invokeHandler :: "handler \<Rightarrow> error + jsval" where
  "invokeHandler (Substitute fullPath) = Inl (NoHandlerExported fullPath)"
| "invokeHandler (Exported v) = Inr v"

text \<open>
  The host application is the caller's (an Express application, by the declared type of
  \<^verbatim>\<open>app\<close>), and whether a call of \<^verbatim>\<open>app[method]\<close> returns or throws is the application's
  doing: it is a parameter, which is given the method, the path and the callbacks, and
  answers with the message of the exception if it throws. Of a callback the application
  is shown whether it is a function, and the value when it is not; the substitute handler
  is a function.
\<close>

datatype callback = Callable | NotCallable jsval

definition callbackOf :: "jsval \<Rightarrow> callback" where
  "callbackOf v = (if typeof v = ''function'' then Callable else NotCallable v)"

fun handlerCallback :: "handler \<Rightarrow> callback" where
  "handlerCallback (Substitute fullPath) = Callable"
| "handlerCallback (Exported v) = callbackOf v"

type_synonym route_method = "string \<Rightarrow> string \<Rightarrow> callback list \<Rightarrow> string option"

text \<open>One call \<^verbatim>\<open>app[method](routePath, ...middlewares, handler)\<close> that returned.\<close>

record route =
  r_method :: string
  r_path :: string
  r_middlewares :: "jsval list"
  r_handler :: handler

text \<open>
  What \<^verbatim>\<open>walk\<close> closes over and mutates: the two registries, the host application (the
  calls made on it, in order) and the console warnings.
\<close>

record wstate =
  routeRegistry :: "string \<rightharpoonup> string"
  fileRegistry :: "string \<rightharpoonup> string"
  app :: "route list"
  warnings :: "error list"

record config =
  projectRoot :: string
  normalizedPrefix :: string
  strict :: bool
  tsxAvailable :: bool
  middlewareLoader :: loader
  appMethod :: route_method

definition importModule :: "bool \<Rightarrow> string \<Rightarrow> 'm source \<Rightarrow> error + 'm" where
  "importModule tsx filePath src =
     (if extname filePath = ''.ts'' \<and> \<not> tsx then Inl (CannotLoadTSRoute filePath)
      else case src of Evaluates m \<Rightarrow> Inr m | EvalThrows msg \<Rightarrow> Inl (ModuleError msg))"

text \<open>
  The two conflict checks of \<^verbatim>\<open>walk\<close> and the update of the registries
  (from \<^verbatim>\<open>routeSignature\<close> to \<^verbatim>\<open>fileRegistry.set\<close>).
\<close>

definition checkConflicts ::
  "config \<Rightarrow> string \<Rightarrow> string \<Rightarrow> string \<Rightarrow> string \<Rightarrow> wstate \<Rightarrow> error option \<times> wstate" where
  "checkConflicts cfg fullPath method fileExt routePath st =
     (let routeSignature = method @ '':'' @ routePath;
          extClash = (case fileRegistry st routeSignature of
                        None \<Rightarrow> None
                      | Some existingFile \<Rightarrow>
                          if extname existingFile \<noteq> ''.'' @ fileExt then Some existingFile else None)
      in case extClash of
        Some existingFile \<Rightarrow>
          (Some (ExtensionConflict existingFile fullPath (toUpperCase method) routePath), st)
      | None \<Rightarrow>
          let fingerprint = method @ '':'' @ normalizeDynamic routePath in
          (case routeRegistry st fingerprint of
             Some prev \<Rightarrow>
               if strict cfg
               then (Some (DynamicConflict prev fullPath (toUpperCase method) routePath), st)
               else (None, st\<lparr>fileRegistry := (fileRegistry st)(routeSignature \<mapsto> fullPath),
                               warnings := warnings st
                                 @ [DynamicConflict prev fullPath (toUpperCase method) routePath]\<rparr>)
           | None \<Rightarrow>
               (None, st\<lparr>routeRegistry := (routeRegistry st)(fingerprint \<mapsto> fullPath),
                          fileRegistry := (fileRegistry st)(routeSignature \<mapsto> fullPath)\<rparr>)))"

text \<open>
  The \<^verbatim>\<open>try\<close> block of \<^verbatim>\<open>walk\<close>: import, handler, middlewares, and the call of
  \<^verbatim>\<open>app[method]\<close>, whose exception the \<^verbatim>\<open>catch\<close> rethrows like the others.
\<close>

definition loadRoute ::
  "config \<Rightarrow> string \<Rightarrow> string \<Rightarrow> string \<Rightarrow> route_module source \<Rightarrow> wstate \<Rightarrow> error option \<times> wstate" where
  "loadRoute cfg fullPath method routePath src st =
     (case importModule (tsxAvailable cfg) fullPath src of
        Inl e \<Rightarrow> (Some e, st)
      | Inr handlerModule \<Rightarrow>
          let handler =
                (if truthy (rm_default handlerModule) then Exported (rm_default handlerModule)
                 else if truthy (rm_handler handlerModule) then Exported (rm_handler handlerModule)
                 else Substitute fullPath);
              routeMiddlewares = js_or (rm_middlewares handlerModule) (JArr [])
          in (case routeMiddlewares of
                JArr declared \<Rightarrow>
                  (case resolveMiddlewares (middlewareLoader cfg) (Some declared) of
                     Inl e \<Rightarrow> (Some e, st)
                   | Inr middlewares \<Rightarrow>
                       (case appMethod cfg method routePath
                               (map callbackOf middlewares @ [handlerCallback handler]) of
                          Some thrown \<Rightarrow> (Some (HostError thrown), st)
                        | None \<Rightarrow>
                            (None, st\<lparr>app := app st
                                        @ [\<lparr>r_method = method, r_path = routePath,
                                            r_middlewares = middlewares, r_handler = handler\<rparr>]\<rparr>)))
              | v \<Rightarrow> (Some (InvalidMiddlewares fullPath (typeof v)), st)))"

text \<open>The body of the loop of \<^verbatim>\<open>walk\<close> for an entry that is not a directory.\<close>

definition registerFile ::
  "config \<Rightarrow> string \<Rightarrow> string \<Rightarrow> string \<Rightarrow> route_module source \<Rightarrow> wstate \<Rightarrow> error option \<times> wstate" where
  "registerFile cfg fullPath prefixPath name src st =
     (case methodMatch name of
        None \<Rightarrow> (None, st)
      | Some (verb, fileExt) \<Rightarrow>
          let method = toLowerCase verb;
              routePath = routePathOf (normalizedPrefix cfg) prefixPath
          in (case checkConflicts cfg fullPath method fileExt routePath st of
                (Some e, st') \<Rightarrow> (Some e, st')
              | (None, st') \<Rightarrow> loadRoute cfg fullPath method routePath src st'))"

text \<open>\<^verbatim>\<open>walk(currentDir, prefixPath)\<close> over the entries of \<open>currentDir\<close>.\<close>

fun walk :: "config \<Rightarrow> string \<Rightarrow> string \<Rightarrow> fsitem list \<Rightarrow> wstate \<Rightarrow> error option \<times> wstate" where
  "walk cfg currentDir prefixPath [] st = (None, st)"
| "walk cfg currentDir prefixPath (Dir name sub # items) st =
     (case walk cfg (path_join currentDir name) (prefixPath @ ''/'' @ name) sub st of
        (Some e, st') \<Rightarrow> (Some e, st')
      | (None, st') \<Rightarrow> walk cfg currentDir prefixPath items st')"
| "walk cfg currentDir prefixPath (File name src # items) st =
     (case registerFile cfg (path_join currentDir name) prefixPath name src st of
        (Some e, st') \<Rightarrow> (Some e, st')
      | (None, st') \<Rightarrow> walk cfg currentDir prefixPath items st')"

text \<open>
  The caller's view of the host: the project root, the options, the two directories
  (\<open>None\<close>: the directory does not exist), whether \<^verbatim>\<open>tsx\<close> can be imported,
  \<^verbatim>\<open>localeCompare\<close>, and the route methods of the application handed to
  \<^verbatim>\<open>registerRoutes\<close>.
\<close>

record env =
  e_projectRoot :: string
  e_routesDir :: string
  e_prefix :: string
  e_strict :: bool
  e_routes :: "fsitem list option"
  e_middlewares :: "mw_entry list option"
  e_tsx :: bool
  e_localeCompare :: "string \<Rightarrow> string \<Rightarrow> int"
  e_appMethod :: route_method

definition baseDirOf :: "env \<Rightarrow> string" where
  "baseDirOf ev = e_projectRoot ev @ ''/src/'' @ e_routesDir ev"

definition middlewaresDirOf :: "env \<Rightarrow> string" where
  "middlewaresDirOf ev = e_projectRoot ev @ ''/src/middlewares''"

text \<open>The options and constants both entry points fix before walking.\<close>

definition configOf :: "env \<Rightarrow> loader \<Rightarrow> config" where
  "configOf ev ld =
     \<lparr>projectRoot = e_projectRoot ev, normalizedPrefix = strip_trailing_slashes (e_prefix ev),
      strict = e_strict ev, tsxAvailable = e_tsx ev, middlewareLoader = ld,
      appMethod = e_appMethod ev\<rparr>"

definition initState :: "route list \<Rightarrow> wstate" where
  "initState app0 = \<lparr>routeRegistry = Map.empty, fileRegistry = Map.empty, app = app0, warnings = []\<rparr>"

text \<open>
  \<^verbatim>\<open>registerRoutes(app, routesDir, options)\<close>: the exception if any, the application after
  the call (also when it throws) and the warnings printed.
\<close>

definition registerRoutes :: "env \<Rightarrow> route list \<Rightarrow> error option \<times> route list \<times> error list" where
  "registerRoutes ev app0 =
     (case e_routes ev of
        None \<Rightarrow> (Some (RoutesDirNotFound (baseDirOf ev)), app0, [])
      | Some items \<Rightarrow>
          (case loadMiddlewares (e_localeCompare ev) (e_tsx ev) (middlewaresDirOf ev)
                  (e_middlewares ev) newLoader of
             (Some e, ld) \<Rightarrow> (Some e, app0, [])
           | (None, ld) \<Rightarrow>
               (case walk (configOf ev ld) (baseDirOf ev) [] items (initState app0) of
                  (r, st) \<Rightarrow> (r, app st, warnings st))))"

subsection \<open>inspectRoutes\<close>

text \<open>An element of \<^verbatim>\<open>routes\<close>; a middleware is listed as its name and \<^verbatim>\<open>type\<close>.\<close>

record route_info =
  ri_method :: string
  ri_path :: string
  ri_file :: string
  ri_fileType :: string
  ri_middlewares :: "(string \<times> string) list"
  ri_handler :: string

record istate =
  i_routeRegistry :: "string \<rightharpoonup> string"
  i_fileRegistry :: "string \<rightharpoonup> string"
  i_routes :: "route_info list"
  i_warnings :: "error list"

text \<open>\<^verbatim>\<open>path.relative(projectRoot, fullPath)\<close> for a path below the root.\<close>

definition relative_path :: "string \<Rightarrow> string \<Rightarrow> string" where
  "relative_path root p = drop (length root + 1) p"

definition inspectConflicts ::
  "config \<Rightarrow> string \<Rightarrow> string \<Rightarrow> string \<Rightarrow> string \<Rightarrow> istate \<Rightarrow> error option \<times> istate" where
  "inspectConflicts cfg fullPath method fileExt routePath st =
     (let routeSignature = method @ '':'' @ routePath;
          extClash = (case i_fileRegistry st routeSignature of
                        None \<Rightarrow> None
                      | Some existingFile \<Rightarrow>
                          if extname existingFile \<noteq> ''.'' @ fileExt then Some existingFile else None)
      in case extClash of
        Some existingFile \<Rightarrow> (Some (InspectExtensionConflict existingFile fullPath), st)
      | None \<Rightarrow>
          let fingerprint = method @ '':'' @ normalizeDynamic routePath in
          (case i_routeRegistry st fingerprint of
             Some prev \<Rightarrow>
               if strict cfg then (Some (InspectDynamicConflict prev fullPath), st)
               else (None, st\<lparr>i_fileRegistry := (i_fileRegistry st)(routeSignature \<mapsto> fullPath),
                               i_warnings := i_warnings st @ [InspectDynamicConflict prev fullPath]\<rparr>)
           | None \<Rightarrow>
               (None, st\<lparr>i_routeRegistry := (i_routeRegistry st)(fingerprint \<mapsto> fullPath),
                          i_fileRegistry := (i_fileRegistry st)(routeSignature \<mapsto> fullPath)\<rparr>)))"

definition inspectRoute ::
  "config \<Rightarrow> string \<Rightarrow> string \<Rightarrow> string \<Rightarrow> string \<Rightarrow> route_module source \<Rightarrow> istate
     \<Rightarrow> error option \<times> istate" where
  "inspectRoute cfg fullPath method fileExt routePath src st =
     (case importModule (tsxAvailable cfg) fullPath src of
        Inl e \<Rightarrow> (Some e, st)
      | Inr handlerModule \<Rightarrow>
          (case js_or (rm_middlewares handlerModule) (JArr []) of
             JArr declared \<Rightarrow>
               (case resolveMiddlewares (middlewareLoader cfg) (Some declared) of
                  Inl e \<Rightarrow> (Some e, st)
                | Inr middlewares \<Rightarrow>
                    let skipGlobals = (skipMarker \<in> set declared);
                        middlewareNames =
                          (if \<not> skipGlobals
                           then map (\<lambda>mw. (fst mw, ''global'')) (globalMiddlewares (middlewareLoader cfg))
                           else [])
                          @ map (\<lambda>name. (name, ''route'')) (filter (\<lambda>name. name \<noteq> skipMarker) declared)
                    in (None, st\<lparr>i_routes := i_routes st
                          @ [\<lparr>ri_method = toUpperCase method, ri_path = routePath,
                              ri_file = relative_path (projectRoot cfg) fullPath,
                              ri_fileType = (if fileExt = ''ts'' then ''TypeScript'' else ''JavaScript''),
                              ri_middlewares = middlewareNames,
                              ri_handler = (if truthy (rm_default handlerModule) then ''default''
                                            else ''handler'')\<rparr>]\<rparr>))
           | v \<Rightarrow> (Some (InspectInvalidMiddlewares fullPath), st)))"

definition inspectFile ::
  "config \<Rightarrow> string \<Rightarrow> string \<Rightarrow> string \<Rightarrow> route_module source \<Rightarrow> istate \<Rightarrow> error option \<times> istate" where
  "inspectFile cfg fullPath prefixPath name src st =
     (case methodMatch name of
        None \<Rightarrow> (None, st)
      | Some (verb, fileExt) \<Rightarrow>
          let method = toLowerCase verb;
              routePath = routePathOf (normalizedPrefix cfg) prefixPath
          in (case inspectConflicts cfg fullPath method fileExt routePath st of
                (Some e, st') \<Rightarrow> (Some e, st')
              | (None, st') \<Rightarrow> inspectRoute cfg fullPath method fileExt routePath src st'))"

fun iwalk :: "config \<Rightarrow> string \<Rightarrow> string \<Rightarrow> fsitem list \<Rightarrow> istate \<Rightarrow> error option \<times> istate" where
  "iwalk cfg currentDir prefixPath [] st = (None, st)"
| "iwalk cfg currentDir prefixPath (Dir name sub # items) st =
     (case iwalk cfg (path_join currentDir name) (prefixPath @ ''/'' @ name) sub st of
        (Some e, st') \<Rightarrow> (Some e, st')
      | (None, st') \<Rightarrow> iwalk cfg currentDir prefixPath items st')"
| "iwalk cfg currentDir prefixPath (File name src # items) st =
     (case inspectFile cfg (path_join currentDir name) prefixPath name src st of
        (Some e, st') \<Rightarrow> (Some e, st')
      | (None, st') \<Rightarrow> iwalk cfg currentDir prefixPath items st')"

text \<open>\<^verbatim>\<open>methodOrder.indexOf(m)\<close>, and the comparison \<^verbatim>\<open>routes.sort\<close> is given.\<close>

fun indexOf :: "string list \<Rightarrow> string \<Rightarrow> int" where
  "indexOf [] x = - 1"
| "indexOf (y # ys) x =
     (if x = y then 0 else (let i = indexOf ys x in if i < 0 then - 1 else i + 1))"

definition methodOrder :: "string list" where
  "methodOrder = [''GET'', ''POST'', ''PUT'', ''PATCH'', ''DELETE'']"

definition routeOrder :: "(string \<Rightarrow> string \<Rightarrow> int) \<Rightarrow> route_info \<Rightarrow> route_info \<Rightarrow> int" where
  "routeOrder cmp a b =
     (if ri_method a \<noteq> ri_method b
      then indexOf methodOrder (ri_method a) - indexOf methodOrder (ri_method b)
      else cmp (ri_path a) (ri_path b))"

text \<open>The \<^verbatim>\<open>reduce\<close> that counts the routes of each method.\<close>

definition byMethod :: "route_info list \<Rightarrow> (string \<times> nat) list" where
  "byMethod rs =
     foldl (\<lambda>acc r. AList.update (ri_method r)
                       ((case map_of acc (ri_method r) of None \<Rightarrow> 0 | Some n \<Rightarrow> n) + 1) acc) [] rs"

record report =
  rp_routes :: "route_info list"
  rp_global :: "string list"
  rp_available :: "string list"
  rp_totalRoutes :: nat
  rp_totalMiddlewares :: nat
  rp_globalMiddlewares :: nat
  rp_byMethod :: "(string \<times> nat) list"

definition initIState :: istate where
  "initIState = \<lparr>i_routeRegistry = Map.empty, i_fileRegistry = Map.empty, i_routes = [], i_warnings = []\<rparr>"

text \<open>
  \<^verbatim>\<open>inspectRoutes(routesDir, options)\<close>: the exception or the report, and the warnings
  printed.
\<close>

definition inspectRoutes :: "env \<Rightarrow> (error + report) \<times> error list" where
  "inspectRoutes ev =
     (case e_routes ev of
        None \<Rightarrow> (Inl (RoutesDirNotFound (baseDirOf ev)), [])
      | Some items \<Rightarrow>
          (case loadMiddlewares (e_localeCompare ev) (e_tsx ev) (middlewaresDirOf ev)
                  (e_middlewares ev) newLoader of
             (Some e, ld) \<Rightarrow> (Inl e, [])
           | (None, ld) \<Rightarrow>
               (case iwalk (configOf ev ld) (baseDirOf ev) [] items initIState of
                  (Some e, st) \<Rightarrow> (Inl e, i_warnings st)
                | (None, st) \<Rightarrow>
                    let middlewareInfo = getAvailableMiddlewares ld;
                        sorted = sort_by (routeOrder (e_localeCompare ev)) (i_routes st)
                    in (Inr \<lparr>rp_routes = sorted,
                             rp_global = fst middlewareInfo,
                             rp_available = snd middlewareInfo,
                             rp_totalRoutes = length sorted,
                             rp_totalMiddlewares = length (snd middlewareInfo),
                             rp_globalMiddlewares = length (fst middlewareInfo),
                             rp_byMethod = byMethod sorted\<rparr>,
                        i_warnings st))))"

subsection \<open>Reading the directories\<close>

text \<open>
  The global middlewares a listing of \<^verbatim>\<open>src/middlewares\<close> holds, read off the listing:
  the files with a recognised extension and the infix \<^verbatim>\<open>._global.\<close>, under their stripped
  names, in the order of the listing. \<open>loadFiles\<close> is compared with it below.
\<close>

definition globalEntries :: "mw_entry list option \<Rightarrow> (string \<times> jsval) list" where
  "globalEntries mwDir =
     concat (map (\<lambda>e. case e of
                    MwFile fname (Evaluates m) \<Rightarrow>
                      if has_js_ts_ext fname \<and> includes_str ''._global.'' fname
                      then [(strip_js_ts_ext (remove_first ''._global'' fname),
                             js_or (mm_default m) (mm_middleware m))]
                      else []
                  | _ \<Rightarrow> [])
               (case mwDir of None \<Rightarrow> [] | Some files \<Rightarrow> files))"

text \<open>
  The recursion of \<^verbatim>\<open>walk\<close> visits the files of the tree in a fixed order. A visit is the
  directory of the file, the folders from the routes root down to it, the file's name and
  what importing it yields; \<open>dirPrefix\<close> is the \<^verbatim>\<open>prefixPath\<close> that the recursive calls
  accumulate for those folders, and \<open>runVisits\<close> runs the loop body over the visits, stopping at
  the first exception.
\<close>

type_synonym visit = "string \<times> string list \<times> string \<times> route_module source"

fun visits :: "string \<Rightarrow> string list \<Rightarrow> fsitem list \<Rightarrow> visit list" where
  "visits currentDir folders [] = []"
| "visits currentDir folders (Dir name sub # items) =
     visits (path_join currentDir name) (folders @ [name]) sub @ visits currentDir folders items"
| "visits currentDir folders (File name src # items) =
     (currentDir, folders, name, src) # visits currentDir folders items"

definition dirPrefix :: "string list \<Rightarrow> string" where
  "dirPrefix folders = foldl (\<lambda>prefixPath name. prefixPath @ ''/'' @ name) [] folders"

definition registerVisit :: "config \<Rightarrow> visit \<Rightarrow> wstate \<Rightarrow> error option \<times> wstate" where
  "registerVisit cfg v st =
     (case v of (currentDir, folders, name, src) \<Rightarrow>
        registerFile cfg (path_join currentDir name) (dirPrefix folders) name src st)"

fun runVisits :: "config \<Rightarrow> visit list \<Rightarrow> wstate \<Rightarrow> error option \<times> wstate" where
  "runVisits cfg [] st = (None, st)"
| "runVisits cfg (v # vs) st =
     (case registerVisit cfg v st of
        (Some e, st') \<Rightarrow> (Some e, st')
      | (None, st') \<Rightarrow> runVisits cfg vs st')"

text \<open>
  What the loop body computes for a visit: \<^verbatim>\<open>fullPath\<close>, \<^verbatim>\<open>method\<close>, \<^verbatim>\<open>fileExt\<close>,
  \<^verbatim>\<open>routePath\<close>, \<^verbatim>\<open>routeSignature\<close> and \<^verbatim>\<open>fingerprint\<close>; the last five only for a
  method file.
\<close>

definition fullPathOf :: "visit \<Rightarrow> string" where
  "fullPathOf v = (case v of (currentDir, folders, name, src) \<Rightarrow> path_join currentDir name)"

definition methodOf :: "visit \<Rightarrow> string option" where
  "methodOf v = (case v of (currentDir, folders, name, src) \<Rightarrow>
                   map_option (\<lambda>(verb, fileExt). toLowerCase verb) (methodMatch name))"

definition extOf :: "visit \<Rightarrow> string option" where
  "extOf v = (case v of (currentDir, folders, name, src) \<Rightarrow>
                map_option (\<lambda>(verb, fileExt). fileExt) (methodMatch name))"

definition pathOf :: "config \<Rightarrow> visit \<Rightarrow> string" where
  "pathOf cfg v = (case v of (currentDir, folders, name, src) \<Rightarrow>
                     routePathOf (normalizedPrefix cfg) (dirPrefix folders))"

definition signatureOf :: "config \<Rightarrow> visit \<Rightarrow> string option" where
  "signatureOf cfg v = map_option (\<lambda>method. method @ '':'' @ pathOf cfg v) (methodOf v)"

definition fingerprintOf :: "config \<Rightarrow> visit \<Rightarrow> string option" where
  "fingerprintOf cfg v =
     map_option (\<lambda>method. method @ '':'' @ normalizeDynamic (pathOf cfg v)) (methodOf v)"

text \<open>
  The folder names the path rule speaks of: a parameter folder \<^verbatim>\<open>[x]\<close>, with \<open>x\<close> not empty
  and free of closing brackets and line terminators, and a plain folder, without an opening
  bracket. \<open>segmentOf\<close> is the URL segment of such a folder.
\<close>

definition legalParam :: "string \<Rightarrow> bool" where
  "legalParam x = (x \<noteq> [] \<and> (\<forall>c\<in>set x. c \<noteq> CHR '']'' \<and> \<not> is_line_terminator c))"

definition paramFolder :: "string \<Rightarrow> bool" where
  "paramFolder name =
     (case name of
        [] \<Rightarrow> False
      | c # rest \<Rightarrow> c = CHR ''['' \<and> rest \<noteq> [] \<and> last rest = CHR '']'' \<and> legalParam (butlast rest))"

definition plainFolder :: "string \<Rightarrow> bool" where
  "plainFolder name = (CHR ''['' \<notin> set name)"

definition segmentOf :: "string \<Rightarrow> string" where
  "segmentOf name = (if paramFolder name then CHR '':'' # butlast (tl name) else name)"

text \<open>
  The walk of \<^verbatim>\<open>inspectRoutes\<close> over the same visits: its loop body at one file, and the
  loop over the files in order.
\<close>

definition inspectVisit :: "config \<Rightarrow> visit \<Rightarrow> istate \<Rightarrow> error option \<times> istate" where
  "inspectVisit cfg v ist =
     (case v of (currentDir, folders, name, src) \<Rightarrow>
        inspectFile cfg (path_join currentDir name) (dirPrefix folders) name src ist)"

fun runInspect :: "config \<Rightarrow> visit list \<Rightarrow> istate \<Rightarrow> error option \<times> istate" where
  "runInspect cfg [] ist = (None, ist)"
| "runInspect cfg (v # vs) ist =
     (case inspectVisit cfg v ist of
        (Some e, ist') \<Rightarrow> (Some e, ist')
      | (None, ist') \<Rightarrow> runInspect cfg vs ist')"

subsection \<open>Comparing the two entry points\<close>

text \<open>
  \<open>inspectView\<close> rewords an error of \<^verbatim>\<open>registerRoutes\<close> the way \<^verbatim>\<open>inspectRoutes\<close> words it:
  the same files, without the method, the path and the type. A registered route and a
  reported route are compared by method (in capitals) and path. \<open>sim\<close> relates the state
  of the two walks: equal registries, the same warnings, and the same routes added since
  the application held \<open>n\<close> routes. \<^verbatim>\<open>inspectRoutes\<close> never calls the application: when a
  route method of the application throws, \<^verbatim>\<open>registerRoutes\<close> stops with that error and
  \<^verbatim>\<open>inspectRoutes\<close> goes on (\<open>hostStopped\<close>); the warnings printed until then stay the first
  of those it prints.
\<close>

fun inspectView :: "error \<Rightarrow> error" where
  "inspectView (ExtensionConflict existingFile fullPath verb routePath) = InspectExtensionConflict existingFile fullPath"
| "inspectView (DynamicConflict prev fullPath verb routePath) = InspectDynamicConflict prev fullPath"
| "inspectView (InvalidMiddlewares fullPath found) = InspectInvalidMiddlewares fullPath"
| "inspectView e = e"

fun isHostError :: "error \<Rightarrow> bool" where
  "isHostError (HostError thrown) = True"
| "isHostError e = False"

definition routeKey :: "route \<Rightarrow> string \<times> string" where
  "routeKey r = (toUpperCase (r_method r), r_path r)"

definition infoKey :: "route_info \<Rightarrow> string \<times> string" where
  "infoKey ri = (ri_method ri, ri_path ri)"

definition sim :: "nat \<Rightarrow> wstate \<Rightarrow> istate \<Rightarrow> bool" where
  "sim n st ist =
     (routeRegistry st = i_routeRegistry ist \<and> fileRegistry st = i_fileRegistry ist
      \<and> map inspectView (warnings st) = i_warnings ist
      \<and> map routeKey (drop n (app st)) = map infoKey (i_routes ist)
      \<and> n \<le> length (app st))"

definition hostStopped :: "error option \<Rightarrow> wstate \<Rightarrow> istate \<Rightarrow> bool" where
  "hostStopped r st ist =
     ((case r of None \<Rightarrow> False | Some e \<Rightarrow> isHostError e)
      \<and> (\<exists>extra. i_warnings ist = map inspectView (warnings st) @ extra))"

subsection \<open>An example project\<close>

text \<open>
  A comparison by code units stands in for \<^verbatim>\<open>localeCompare\<close> where a concrete one is
  needed, and the application is one whose route methods throw when a callback is not a
  function, as those of Express do for a value that is not an array. The middlewares are
  those of the README: two global ones and two named ones.
\<close>

definition codeUnitCompare :: "string \<Rightarrow> string \<Rightarrow> int" where
  "codeUnitCompare a b = (if a < b then - 1 else if a = b then 0 else 1)"

definition functionsOnly :: route_method where
  "functionsOnly verb routePath callbacks =
     (if list_all (\<lambda>c. c = Callable) callbacks then None
      else Some (''Route.'' @ verb @ ''() requires a callback function''))"

definition fnModule :: "nat \<Rightarrow> mw_module source" where
  "fnModule k = Evaluates \<lparr>mm_default = JFun k, mm_middleware = JUndefined\<rparr>"

definition ex_middlewares :: "mw_entry list" where
  "ex_middlewares =
     [MwFile ''logIP._global.js'' (fnModule 2), MwFile ''checkRole.js'' (fnModule 4),
      MwFile ''cors._global.js'' (fnModule 1), MwDir ''lib'', MwFile ''README.md'' (EvalThrows []),
      MwFile ''checkAuth.js'' (fnModule 3)]"

definition ex_loader :: loader where
  "ex_loader =
     \<lparr>middlewareCache = [(''logIP'', JFun 2), (''checkRole'', JFun 4), (''cors'', JFun 1),
                         (''checkAuth'', JFun 3)],
      globalMiddlewares = [(''cors'', JFun 1), (''logIP'', JFun 2)],
      loaded = True\<rparr>"

text \<open>Route modules: one with a default export, one with no handler at all.\<close>

definition handlerModule :: "nat \<Rightarrow> jsval \<Rightarrow> route_module source" where
  "handlerModule k mws = Evaluates \<lparr>rm_default = JFun k, rm_handler = JUndefined, rm_middlewares = mws\<rparr>"

definition bareModule :: "route_module source" where
  "bareModule = Evaluates \<lparr>rm_default = JUndefined, rm_handler = JUndefined, rm_middlewares = JUndefined\<rparr>"

definition ex_env :: "string \<Rightarrow> bool \<Rightarrow> fsitem list \<Rightarrow> env" where
  "ex_env pfx strictMode items =
     \<lparr>e_projectRoot = ''/p'', e_routesDir = ''routes'', e_prefix = pfx, e_strict = strictMode,
      e_routes = Some items, e_middlewares = Some ex_middlewares, e_tsx = True,
      e_localeCompare = codeUnitCompare, e_appMethod = functionsOnly\<rparr>"

text \<open>A lone method file at the routes root, registered without a prefix.\<close>

definition ex_root :: env where
  "ex_root = ex_env [] False [File ''GET.js'' (handlerModule 7 JUndefined)]"

text \<open>The configuration of the walk in the example project, and a tree with one route.\<close>

definition ex_cfg :: "bool \<Rightarrow> config" where
  "ex_cfg strictMode = configOf (ex_env [] strictMode []) ex_loader"


text \<open>A route in both extensions.\<close>

definition ex_get_js :: visit where
  "ex_get_js = (''/p/src/routes/a'', [''a''], ''GET.js'', handlerModule 7 JUndefined)"

definition ex_get_ts :: visit where
  "ex_get_ts = (''/p/src/routes/a'', [''a''], ''GET.ts'', handlerModule 8 JUndefined)"

text \<open>Two parameter folders at one position, and a tree whose second route fails to load.\<close>

definition ex_by_id :: visit where
  "ex_by_id = (''/p/src/routes/product/[id]'', [''product'', ''[id]''], ''GET.js'', handlerModule 5 JUndefined)"

definition ex_by_slug :: visit where
  "ex_by_slug = (''/p/src/routes/product/[slug]'', [''product'', ''[slug]''], ''GET.js'', handlerModule 6 JUndefined)"

definition ex_tree_js_ts :: "fsitem list" where
  "ex_tree_js_ts =
     [Dir ''a'' [File ''GET.js'' (handlerModule 7 JUndefined), File ''GET.ts'' (handlerModule 8 JUndefined)]]"

definition ex_post_bad :: visit where
  "ex_post_bad = (''/p/src/routes/b'', [''b''], ''POST.js'', handlerModule 8 (JStr ''checkAuth''))"

definition ex_tree_fail :: "fsitem list" where
  "ex_tree_fail =
     [Dir ''a'' [File ''GET.js'' (handlerModule 7 JUndefined)],
      Dir ''b'' [File ''POST.js'' (handlerModule 8 (JStr ''checkAuth''))],
      Dir ''c'' [File ''GET.js'' (handlerModule 9 JUndefined)]]"

text \<open>Two parameter folders and a handler-less route in one tree.\<close>

definition ex_tree_params :: "fsitem list" where
  "ex_tree_params =
     [Dir ''product''
        [Dir ''[id]'' [File ''GET.js'' (handlerModule 5 JUndefined)],
         Dir ''[slug]'' [File ''GET.js'' (handlerModule 6 JUndefined)],
         File ''POST.js'' bareModule]]"

text \<open>
  A route whose default export is an object, and a folder with three spellings of one
  method file, the last of them in TypeScript.
\<close>

definition ex_tree_object :: "fsitem list" where
  "ex_tree_object =
     [Dir ''a'' [File ''GET.js''
        (Evaluates \<lparr>rm_default = JObj, rm_handler = JUndefined, rm_middlewares = JUndefined\<rparr>)]]"

definition ex_get_ts_lower :: visit where
  "ex_get_ts_lower = (''/p/src/routes/a'', [''a''], ''get.ts'', handlerModule 9 JUndefined)"

definition ex_tree_three :: "fsitem list" where
  "ex_tree_three =
     [Dir ''a'' [File ''GET.js'' (handlerModule 7 JUndefined), File ''Get.js'' (handlerModule 8 JUndefined),
                 File ''get.ts'' (handlerModule 9 JUndefined)]]"

section \<open>Properties\<close>

subsection \<open>Sorting and lookup\<close>

lemma set_insert_by: "set (insert_by cmp x xs) = insert x (set xs)"
  by (induction xs) auto

lemma mset_insert_by: "mset (insert_by cmp x xs) = add_mset x (mset xs)"
  by (induction xs) auto

lemma mset_sort_by: "mset (sort_by cmp xs) = mset xs"
  unfolding sort_by_def by (induction xs) (auto simp: mset_insert_by)

lemma sorted_insert_by:
  assumes total: "\<And>a b. cmp a b \<le> 0 \<or> cmp b a \<le> 0"
    and trans: "\<And>a b c. cmp a b \<le> 0 \<Longrightarrow> cmp b c \<le> 0 \<Longrightarrow> cmp a c \<le> 0"
    and srt: "sorted_wrt (\<lambda>a b. cmp a b \<le> 0) xs"
  shows "sorted_wrt (\<lambda>a b. cmp a b \<le> 0) (insert_by cmp x xs)"
  using srt
proof (induction xs)
  case Nil
  then show ?case by simp
next
  case (Cons y ys)
  show ?case
  proof (cases "cmp x y \<le> 0")
    case True
    with Cons.prems show ?thesis by (auto intro: trans)
  next
    case False
    with total have "cmp y x \<le> 0" by blast
    with False Cons show ?thesis by (auto simp: set_insert_by)
  qed
qed

lemma sorted_sort_by:
  assumes "\<And>a b. cmp a b \<le> 0 \<or> cmp b a \<le> 0"
    and "\<And>a b c. cmp a b \<le> 0 \<Longrightarrow> cmp b c \<le> 0 \<Longrightarrow> cmp a c \<le> 0"
  shows "sorted_wrt (\<lambda>a b. cmp a b \<le> 0) (sort_by cmp xs)"
proof (induction xs)
  case Nil
  then show ?case by (simp add: sort_by_def)
next
  case (Cons x xs)
  have "sort_by cmp (x # xs) = insert_by cmp x (sort_by cmp xs)"
    by (simp add: sort_by_def)
  with Cons show ?case
    using sorted_insert_by [of cmp "sort_by cmp xs" x] assms by metis
qed

lemma lookupAll_known:
  "\<forall>n\<in>set names. n \<in> fst ` set cache \<Longrightarrow>
   \<exists>named. map (map_of cache) names = map Some named \<and> lookupAll cache names acc = Inr (acc @ named)"
proof (induction names arbitrary: acc)
  case Nil
  then show ?case by simp
next
  case (Cons n names)
  from Cons.prems obtain mw where mw: "map_of cache n = Some mw"
    by (cases "map_of cache n") (auto simp: map_of_eq_None_iff)
  from Cons.IH [of "acc @ [mw]"] Cons.prems obtain named where
    "map (map_of cache) names = map Some named"
    "lookupAll cache names (acc @ [mw]) = Inr ((acc @ [mw]) @ named)"
    by auto
  with mw show ?case by (intro exI [of _ "mw # named"]) simp
qed

lemma lookupAll_missing:
  "find (\<lambda>n. n \<notin> fst ` set cache) names = Some missing \<Longrightarrow>
   lookupAll cache names acc = Inl (MiddlewareNotFound missing (map fst cache))"
proof (induction names arbitrary: acc)
  case Nil
  then show ?case by simp
next
  case (Cons n names)
  show ?case
  proof (cases "map_of cache n")
    case None
    then have "n \<notin> fst ` set cache" by (simp add: map_of_eq_None_iff)
    with Cons.prems None show ?thesis by simp
  next
    case (Some mw)
    then have "n \<in> fst ` set cache" by (metis map_of_eq_None_iff option.distinct(1))
    with Cons Some show ?thesis by simp
  qed
qed

lemma importMiddleware_Inr: "importMiddleware tsx p src = Inr m \<Longrightarrow> src = Evaluates m"
  by (auto simp: importMiddleware_def split: if_splits source.splits bool.splits)

lemma loadFiles_globals:
  "loadFiles tsx dir files ld = (None, ld') \<Longrightarrow>
   globalMiddlewares ld' = globalMiddlewares ld @ globalEntries (Some files)"
proof (induction tsx dir files ld rule: loadFiles.induct)
  case (1 tsx dir ld)
  then show ?case by (simp add: globalEntries_def)
next
  case (2 tsx dir name es ld)
  then show ?case by (simp add: globalEntries_def)
next
  case (3 tsx dir fname src es ld)
  show ?case
  proof (cases "has_js_ts_ext fname")
    case False
    with 3 show ?thesis by (simp add: globalEntries_def split: source.splits)
  next
    case True
    show ?thesis
    proof (cases "importMiddleware tsx (path_join dir fname) src")
      case (Inl e)
      with True "3.prems" show ?thesis by simp
    next
      case (Inr m)
      then have src: "src = Evaluates m" by (rule importMiddleware_Inr)
      let ?mw = "js_or (mm_default m) (mm_middleware m)"
      from True Inr "3.prems" have ok: "\<not> (\<not> truthy ?mw \<or> typeof ?mw \<noteq> ''function'')"
        by (auto simp: Let_def split: if_splits)
      from "3.IH"(2) [OF _ refl refl Inr refl ok] True Inr ok "3.prems" src
      show ?thesis
        by (simp add: Let_def globalEntries_def)
    qed
  qed
qed

lemma resolve_known:
  assumes "\<forall>n\<in>set declared. n \<noteq> skipMarker \<longrightarrow> n \<in> fst ` set (middlewareCache ld)"
  shows "\<exists>named. map (map_of (middlewareCache ld)) (filter (\<lambda>n. n \<noteq> skipMarker) declared) = map Some named
            \<and> resolveMiddlewares ld (Some declared)
                = Inr ((if skipMarker \<in> set declared then [] else map snd (globalMiddlewares ld)) @ named)"
proof -
  let ?req = "filter (\<lambda>n. n \<noteq> skipMarker) declared"
  let ?acc = "if skipMarker \<in> set declared then [] else map snd (globalMiddlewares ld)"
  from assms have "\<forall>n\<in>set ?req. n \<in> fst ` set (middlewareCache ld)" by simp
  from lookupAll_known [OF this, of ?acc] obtain named where
    n: "map (map_of (middlewareCache ld)) ?req = map Some named"
    and l: "lookupAll (middlewareCache ld) ?req ?acc = Inr (?acc @ named)" by blast
  show ?thesis
  proof (cases "declared = []")
    case True
    with n show ?thesis by (simp add: resolveMiddlewares_def)
  next
    case False
    with n l show ?thesis
      by (intro exI [of _ named]) (simp add: resolveMiddlewares_def Let_def split: if_splits)
  qed
qed

lemma ex_load:
  "loadMiddlewares codeUnitCompare True ''/p/src/middlewares'' (Some ex_middlewares) newLoader
     = (None, ex_loader)"
  by code_simp

lemma codeUnitCompare_total: "\<forall>a b. codeUnitCompare a b \<le> 0 \<or> codeUnitCompare b a \<le> 0"
  by (auto simp: codeUnitCompare_def)

lemma codeUnitCompare_trans:
  "\<forall>a b c. codeUnitCompare a b \<le> 0 \<longrightarrow> codeUnitCompare b c \<le> 0 \<longrightarrow> codeUnitCompare a c \<le> 0"
  by (auto simp: codeUnitCompare_def split: if_splits)

subsection \<open>The resolved middleware chain\<close>

text \<open>
  Claim C1. After \<^verbatim>\<open>loadMiddlewares\<close> has succeeded, the global list holds exactly the global
  middlewares of the directory, sorted by name under the host's comparison (taken as a
  total preorder). For a declared list whose names, the skip marker apart, are all in the
  catalog, \<^verbatim>\<open>resolveMiddlewares\<close> returns the global callables in that sorted order (none
  when the list contains \<^verbatim>\<open>"!_global"\<close>) followed by the catalog's callables for the declared
  names without the marker, in declared order. For an empty or omitted list it returns
  the sorted global callables.
\<close>

theorem resolved_chain_order:
  assumes total: "\<forall>a b. cmp a b \<le> 0 \<or> cmp b a \<le> 0"
    and trans: "\<forall>a b c. cmp a b \<le> 0 \<longrightarrow> cmp b c \<le> 0 \<longrightarrow> cmp a c \<le> 0"
    and load: "loadMiddlewares cmp tsx dir mwDir newLoader = (None, ld)"
    and known: "\<forall>n\<in>set declared. n \<noteq> skipMarker \<longrightarrow> n \<in> fst ` set (middlewareCache ld)"
  shows "sorted_wrt (\<lambda>a b. cmp (fst a) (fst b) \<le> 0) (globalMiddlewares ld)
     \<and> mset (globalMiddlewares ld) = mset (globalEntries mwDir)
     \<and> (\<exists>named. map (map_of (middlewareCache ld)) (filter (\<lambda>n. n \<noteq> skipMarker) declared) = map Some named
          \<and> resolveMiddlewares ld (Some declared)
              = Inr ((if skipMarker \<in> set declared then [] else map snd (globalMiddlewares ld)) @ named))
     \<and> resolveMiddlewares ld (Some []) = Inr (map snd (globalMiddlewares ld))
     \<and> resolveMiddlewares ld None = Inr (map snd (globalMiddlewares ld))"
proof -
  have t1: "\<And>a b. byName cmp a b \<le> 0 \<or> byName cmp b a \<le> 0"
    using total by (simp add: byName_def)
  have t2: "\<And>a b c. byName cmp a b \<le> 0 \<Longrightarrow> byName cmp b c \<le> 0 \<Longrightarrow> byName cmp a c \<le> 0"
    unfolding byName_def using trans by blast
  have sm: "sorted_wrt (\<lambda>a b. cmp (fst a) (fst b) \<le> 0) (globalMiddlewares ld)
            \<and> mset (globalMiddlewares ld) = mset (globalEntries mwDir)"
  proof (cases mwDir)
    case None
    with load have "globalMiddlewares ld = []"
      by (auto simp: loadMiddlewares_def newLoader_def)
    with None show ?thesis by (simp add: globalEntries_def)
  next
    case (Some files)
    with load obtain ld0 where
      files: "loadFiles tsx dir files newLoader = (None, ld0)"
      and ld: "ld = ld0\<lparr>globalMiddlewares := sort_by (byName cmp) (globalMiddlewares ld0),
                        loaded := True\<rparr>"
      by (auto simp: loadMiddlewares_def newLoader_def split: prod.splits option.splits)
    from loadFiles_globals [OF files] have g0: "globalMiddlewares ld0 = globalEntries (Some files)"
      by (simp add: newLoader_def)
    have "sorted_wrt (\<lambda>a b. byName cmp a b \<le> 0) (sort_by (byName cmp) (globalMiddlewares ld0))"
      using t1 t2 by (rule sorted_sort_by)
    then have "sorted_wrt (\<lambda>a b. cmp (fst a) (fst b) \<le> 0) (globalMiddlewares ld)"
      by (simp add: ld byName_def)
    moreover have "mset (globalMiddlewares ld) = mset (globalEntries mwDir)"
      by (simp add: ld g0 Some mset_sort_by)
    ultimately show ?thesis by simp
  qed
  have e: "resolveMiddlewares ld (Some []) = Inr (map snd (globalMiddlewares ld))"
    "resolveMiddlewares ld None = Inr (map snd (globalMiddlewares ld))"
    by (simp_all add: resolveMiddlewares_def)
  from sm e resolve_known [OF known] show ?thesis by blast
qed

theorem resolved_chain_order_witness:
  "resolveMiddlewares ex_loader (Some [''checkAuth'', ''checkRole''])
     = Inr [JFun 1, JFun 2, JFun 3, JFun 4]
   \<and> resolveMiddlewares ex_loader (Some []) = Inr [JFun 1, JFun 2]
   \<and> resolveMiddlewares ex_loader None = Inr [JFun 1, JFun 2]
   \<and> sorted_wrt (\<lambda>a b. codeUnitCompare (fst a) (fst b) \<le> 0) (globalMiddlewares ex_loader)
   \<and> map fst (globalMiddlewares ex_loader) = [''cors'', ''logIP'']"
proof -
  let ?declared = "[''checkAuth'', ''checkRole'']"
  have k: "\<forall>n\<in>set ?declared. n \<noteq> skipMarker \<longrightarrow> n \<in> fst ` set (middlewareCache ex_loader)"
    by (simp add: ex_loader_def)
  note r = resolved_chain_order [OF codeUnitCompare_total codeUnitCompare_trans ex_load k]
  from r obtain named where
    n: "map (map_of (middlewareCache ex_loader)) (filter (\<lambda>n. n \<noteq> skipMarker) ?declared) = map Some named"
    and c: "resolveMiddlewares ex_loader (Some ?declared)
              = Inr ((if skipMarker \<in> set ?declared then [] else map snd (globalMiddlewares ex_loader)) @ named)"
    by blast
  from n have "named = [JFun 3, JFun 4]"
    by (auto simp: ex_loader_def skipMarker_def)
  with c have "resolveMiddlewares ex_loader (Some ?declared) = Inr [JFun 1, JFun 2, JFun 3, JFun 4]"
    by (simp add: ex_loader_def skipMarker_def)
  moreover from r have "resolveMiddlewares ex_loader (Some []) = Inr [JFun 1, JFun 2]"
    "resolveMiddlewares ex_loader None = Inr [JFun 1, JFun 2]"
    by (simp_all add: ex_loader_def)
  moreover from r have "sorted_wrt (\<lambda>a b. codeUnitCompare (fst a) (fst b) \<le> 0) (globalMiddlewares ex_loader)"
    by blast
  moreover have "map fst (globalMiddlewares ex_loader) = [''cors'', ''logIP'']"
    by (simp add: ex_loader_def)
  ultimately show ?thesis by blast
qed

text \<open>
  Claim C9. When a declared name other than the skip marker is not a key of the catalog,
  \<^verbatim>\<open>resolveMiddlewares\<close> throws: the error names the first such name of the declared list
  and lists every key of the catalog (what \<^verbatim>\<open>getAvailableMiddlewares\<close> reports as available).
\<close>

theorem unknown_middleware_fails:
  assumes "name \<in> set declared" and "name \<noteq> skipMarker"
    and "name \<notin> fst ` set (middlewareCache ld)"
  shows "\<exists>missing.
           find (\<lambda>n. n \<noteq> skipMarker \<and> n \<notin> fst ` set (middlewareCache ld)) declared = Some missing
         \<and> resolveMiddlewares ld (Some declared)
             = Inl (MiddlewareNotFound missing (map fst (middlewareCache ld)))
         \<and> missing \<in> set declared \<and> missing \<notin> fst ` set (middlewareCache ld)
         \<and> map fst (middlewareCache ld) = snd (getAvailableMiddlewares ld)"
proof -
  let ?P = "\<lambda>n. n \<noteq> skipMarker \<and> n \<notin> fst ` set (middlewareCache ld)"
  let ?req = "filter (\<lambda>n. n \<noteq> skipMarker) declared"
  from assms obtain missing where f: "find ?P declared = Some missing"
    by (cases "find ?P declared") (auto simp: find_None_iff)
  from assms have ne: "declared \<noteq> []" by auto
  have "find (\<lambda>n. n \<notin> fst ` set (middlewareCache ld)) ?req = Some missing"
    using f by (induction declared) (auto split: if_splits)
  from lookupAll_missing [OF this] ne
  have "resolveMiddlewares ld (Some declared)
          = Inl (MiddlewareNotFound missing (map fst (middlewareCache ld)))"
    by (simp add: resolveMiddlewares_def Let_def)
  moreover from f have "missing \<in> set declared" "missing \<notin> fst ` set (middlewareCache ld)"
    by (auto simp: find_Some_iff)
  ultimately show ?thesis using f by (simp add: getAvailableMiddlewares_def)
qed

theorem unknown_middleware_fails_witness:
  "resolveMiddlewares ex_loader (Some [''checkAuth'', ''nonExistent'', ''other''])
     = Inl (MiddlewareNotFound ''nonExistent'' [''logIP'', ''checkRole'', ''cors'', ''checkAuth''])"
proof -
  have "''nonExistent'' \<in> set [''checkAuth'', ''nonExistent'', ''other'']"
    and "''nonExistent'' \<noteq> skipMarker"
    and "''nonExistent'' \<notin> fst ` set (middlewareCache ex_loader)"
    by (simp_all add: ex_loader_def skipMarker_def)
  from unknown_middleware_fails [OF this] show ?thesis
    by (auto simp: ex_loader_def skipMarker_def)
qed

subsection \<open>The walk and its visits\<close>

lemma runVisits_append:
  "runVisits cfg (xs @ ys) st =
     (case runVisits cfg xs st of (Some e, st') \<Rightarrow> (Some e, st') | (None, st') \<Rightarrow> runVisits cfg ys st')"
proof (induction xs arbitrary: st)
  case Nil
  then show ?case by simp
next
  case (Cons v xs)
  then show ?case
    by (auto split: prod.splits option.splits)
qed

lemma dirPrefix_snoc: "dirPrefix (folders @ [name]) = dirPrefix folders @ ''/'' @ name"
  by (simp add: dirPrefix_def)

lemma walk_visits:
  "prefixPath = dirPrefix folders \<Longrightarrow>
   walk cfg currentDir prefixPath items st = runVisits cfg (visits currentDir folders items) st"
proof (induction cfg currentDir prefixPath items st arbitrary: folders rule: walk.induct)
  case (1 cfg currentDir prefixPath st)
  then show ?case by simp
next
  case (2 cfg currentDir prefixPath name sub items st)
  have p: "prefixPath @ ''/'' @ name = dirPrefix (folders @ [name])"
    using "2.prems" by (simp add: dirPrefix_snoc)
  obtain r st' where w: "walk cfg (path_join currentDir name) (prefixPath @ ''/'' @ name) sub st = (r, st')"
    by fastforce
  with "2.IH"(1) [OF p]
  have v: "runVisits cfg (visits (path_join currentDir name) (folders @ [name]) sub) st = (r, st')"
    by simp
  show ?case
  proof (cases r)
    case None
    from "2.IH"(2) [OF w [symmetric] None "2.prems"] w v None show ?thesis
      by (simp add: runVisits_append)
  next
    case (Some e)
    with w v show ?thesis by (simp add: runVisits_append)
  qed
next
  case (3 cfg currentDir prefixPath name src items st)
  show ?case
  proof (cases "registerFile cfg (path_join currentDir name) prefixPath name src st")
    case (Pair r st')
    show ?thesis
    proof (cases r)
      case None
      with Pair "3.IH" [OF Pair [symmetric] None "3.prems"] "3.prems" show ?thesis
        by (simp add: registerVisit_def)
    next
      case (Some e)
      with Pair "3.prems" show ?thesis by (simp add: registerVisit_def)
    qed
  qed
qed

lemma loadRoute_effect:
  "loadRoute cfg fullPath method routePath src st = (res, st') \<Longrightarrow>
   routeRegistry st' = routeRegistry st \<and> fileRegistry st' = fileRegistry st \<and> warnings st' = warnings st \<and>
   (case res of
      Some e \<Rightarrow> st' = st
    | None \<Rightarrow> (\<exists>r. app st' = app st @ [r] \<and> r_method r = method \<and> r_path r = routePath))"
  by (auto simp: loadRoute_def Let_def split: sum.splits jsval.splits option.splits)

lemma checkConflicts_app:
  "checkConflicts cfg fullPath method fileExt routePath st = (res, st') \<Longrightarrow> app st' = app st"
  by (auto simp: checkConflicts_def Let_def split: option.splits if_splits)

lemma registerFile_app:
  assumes "registerFile cfg fullPath prefixPath name src st = (res, st')"
  shows "app st' = app st \<or>
         (res = None \<and> (\<exists>r verb ext. methodMatch name = Some (verb, ext) \<and> app st' = app st @ [r]
              \<and> r_method r = toLowerCase verb \<and> r_path r = routePathOf (normalizedPrefix cfg) prefixPath))"
proof (cases "methodMatch name")
  case None
  with assms show ?thesis by (simp add: registerFile_def)
next
  case (Some ve)
  obtain verb ext where ve: "ve = (verb, ext)" by (cases ve)
  let ?m = "toLowerCase verb" and ?p = "routePathOf (normalizedPrefix cfg) prefixPath"
  obtain r1 s1 where c: "checkConflicts cfg fullPath ?m ext ?p st = (r1, s1)" by fastforce
  show ?thesis
  proof (cases r1)
    case (Some e)
    with c assms \<open>methodMatch name = Some ve\<close> ve checkConflicts_app [OF c] show ?thesis
      by (simp add: registerFile_def Let_def)
  next
    case None
    with c assms \<open>methodMatch name = Some ve\<close> ve
    have l: "loadRoute cfg fullPath ?m ?p src s1 = (res, st')"
      by (simp add: registerFile_def Let_def)
    from loadRoute_effect [OF l] checkConflicts_app [OF c] \<open>methodMatch name = Some ve\<close> ve
    show ?thesis by (cases res) auto
  qed
qed

subsection \<open>Route paths\<close>

lemma foldl_prefix_acc:
  "foldl (\<lambda>p name. p @ CHR ''/'' # name) acc folders = acc @ concat (map ((#) CHR ''/'') folders)"
  by (induction folders arbitrary: acc) auto

lemma dirPrefix_concat: "dirPrefix folders = concat (map ((#) CHR ''/'') folders)"
  by (simp add: dirPrefix_def foldl_prefix_acc)

lemma replace_brackets_plain:
  "CHR ''['' \<notin> set s \<Longrightarrow> replace_brackets (s @ rest) = s @ replace_brackets rest"
  by (induction s) auto

lemma scan_param_legal:
  "legalParam x \<Longrightarrow> scan_param (x @ CHR '']'' # rest) = Some (x, rest)"
  unfolding legalParam_def
proof (induction x)
  case Nil
  then show ?case by simp
next
  case (Cons c x)
  then show ?case by (cases x) auto
qed

lemma paramFolder_shape:
  assumes p: "paramFolder name"
  shows "\<exists>x. name = CHR ''['' # x @ '']'' \<and> legalParam x \<and> segmentOf name = CHR '':'' # x"
proof -
  from p obtain rest where n: "name = CHR ''['' # rest" and r: "rest \<noteq> []" "last rest = CHR '']''"
    "legalParam (butlast rest)"
    by (auto simp: paramFolder_def split: list.splits)
  from r have "rest = butlast rest @ '']''" by (metis append_butlast_last_id)
  with n r p show ?thesis
    by (intro exI [of _ "butlast rest"]) (simp add: segmentOf_def)
qed

lemma replace_brackets_folder:
  assumes "paramFolder name \<or> plainFolder name"
  shows "replace_brackets (''/'' @ name @ rest) = ''/'' @ segmentOf name @ replace_brackets rest"
proof (cases "paramFolder name")
  case True
  from paramFolder_shape [OF True] obtain x where
    "name = CHR ''['' # x @ '']''" "legalParam x" "segmentOf name = CHR '':'' # x" by blast
  then show ?thesis by (simp add: scan_param_legal)
next
  case False
  with assms have "CHR ''['' \<notin> set name" by (simp add: plainFolder_def)
  from replace_brackets_plain [OF this] False show ?thesis by (simp add: segmentOf_def)
qed

lemma replace_brackets_folders:
  "\<forall>name\<in>set folders. paramFolder name \<or> plainFolder name \<Longrightarrow>
   replace_brackets (concat (map ((#) CHR ''/'') folders))
     = concat (map (\<lambda>name. CHR ''/'' # segmentOf name) folders)"
proof (induction folders)
  case Nil
  then show ?case by simp
next
  case (Cons name folders)
  then have "paramFolder name \<or> plainFolder name" by simp
  from replace_brackets_folder [OF this, of "concat (map ((#) CHR ''/'') folders)"] Cons
  show ?case by simp
qed

lemma routePathOf_folders:
  "\<forall>name\<in>set folders. paramFolder name \<or> plainFolder name \<Longrightarrow>
   routePathOf np (dirPrefix folders)
     = collapse_slashes (backslash_to_slash (np @ concat (map (\<lambda>name. ''/'' @ segmentOf name) folders)))"
  by (simp add: routePathOf_def dirPrefix_concat replace_brackets_folders)

text \<open>
  Claim C4, as the code has it. Below folders that are parameter folders \<^verbatim>\<open>[x]\<close> or plain
  folders, the route path of a method file is the prefix without its trailing slashes,
  followed by \<^verbatim>\<open>/\<close> and the segment of each folder (\<^verbatim>\<open>:x\<close> for \<^verbatim>\<open>[x]\<close>), with
  backslashes turned into slashes and runs of slashes collapsed; this is the path of the
  route that the loop body registers. A method file at the routes root gets the stripped
  and normalised prefix, which for the empty prefix is the empty string.
\<close>

theorem route_path_rule:
  assumes "\<forall>name\<in>set folders. paramFolder name \<or> plainFolder name"
  shows "routePathOf (strip_trailing_slashes (e_prefix ev)) (dirPrefix folders)
           = collapse_slashes (backslash_to_slash
               (strip_trailing_slashes (e_prefix ev)
                  @ concat (map (\<lambda>name. ''/'' @ segmentOf name) folders)))
       \<and> (let st' = snd (registerFile (configOf ev ld) fullPath (dirPrefix folders) name src st)
          in app st' = app st
             \<or> (\<exists>r. app st' = app st @ [r]
                  \<and> r_path r = routePathOf (strip_trailing_slashes (e_prefix ev)) (dirPrefix folders)))
       \<and> routePathOf (strip_trailing_slashes (e_prefix ev)) (dirPrefix [])
           = collapse_slashes (backslash_to_slash (strip_trailing_slashes (e_prefix ev)))
       \<and> routePathOf (strip_trailing_slashes []) (dirPrefix []) = []"
proof -
  let ?cfg = "configOf ev ld"
  obtain res st' where r: "registerFile ?cfg fullPath (dirPrefix folders) name src st = (res, st')"
    by fastforce
  have np: "normalizedPrefix ?cfg = strip_trailing_slashes (e_prefix ev)"
    by (simp add: configOf_def)
  from registerFile_app [OF r] np
  have "app st' = app st
        \<or> (\<exists>r. app st' = app st @ [r]
              \<and> r_path r = routePathOf (strip_trailing_slashes (e_prefix ev)) (dirPrefix folders))"
    by auto
  with r have 2: "let st' = snd (registerFile ?cfg fullPath (dirPrefix folders) name src st)
          in app st' = app st
             \<or> (\<exists>r. app st' = app st @ [r]
                  \<and> r_path r = routePathOf (strip_trailing_slashes (e_prefix ev)) (dirPrefix folders))"
    by simp
  have 3: "routePathOf (strip_trailing_slashes (e_prefix ev)) (dirPrefix [])
           = collapse_slashes (backslash_to_slash (strip_trailing_slashes (e_prefix ev)))"
    by (simp add: routePathOf_def dirPrefix_def)
  have 4: "routePathOf (strip_trailing_slashes []) (dirPrefix []) = []"
    by (simp add: routePathOf_def dirPrefix_def strip_trailing_slashes_def backslash_to_slash_def)
  from routePathOf_folders [OF assms] 2 3 4 show ?thesis by blast
qed

theorem route_path_rule_witness:
  "routePathOf (strip_trailing_slashes ''/api//'') (dirPrefix [''product'', ''[id]''])
     = ''/api/product/:id''"
proof -
  have f: "\<forall>name\<in>set [''product'', ''[id]'']. paramFolder name \<or> plainFolder name"
    by (simp add: paramFolder_def plainFolder_def legalParam_def is_line_terminator_def)
  have e: "collapse_slashes (backslash_to_slash
             (strip_trailing_slashes ''/api//''
                @ concat (map (\<lambda>name. ''/'' @ segmentOf name) [''product'', ''[id]''])))
           = ''/api/product/:id''"
    by code_simp
  from route_path_rule [OF f, of "ex_env ''/api//'' False []"] e show ?thesis
    by (simp add: ex_env_def)
qed

text \<open>
  Claim C4 as written fails at the routes root: without a prefix the method file is
  registered under the empty path, not under \<^verbatim>\<open>/\<close>.
\<close>

theorem root_route_has_empty_path:
  "registerRoutes ex_root []
     = (None, [\<lparr>r_method = ''get'', r_path = [], r_middlewares = [JFun 1, JFun 2],
                r_handler = Exported (JFun 7)\<rparr>], [])
   \<and> map r_path (fst (snd (registerRoutes ex_root []))) \<noteq> [''/'']"
  by code_simp

subsection \<open>Handlers and middleware declarations\<close>

lemma lookupAll_error:
  "lookupAll cache names acc = Inl e \<Longrightarrow> \<exists>n ks. e = MiddlewareNotFound n ks"
  by (induction names arbitrary: acc) (auto split: option.splits)

lemma resolveMiddlewares_error:
  "resolveMiddlewares ld d = Inl e \<Longrightarrow> \<exists>n ks. e = MiddlewareNotFound n ks"
  by (auto simp: resolveMiddlewares_def Let_def split: option.splits if_splits dest: lookupAll_error)

lemma importModule_error:
  "importModule tsx p src = Inl e \<Longrightarrow> (\<exists>q. e = CannotLoadTSRoute q) \<or> (\<exists>msg. e = ModuleError msg)"
  by (auto simp: importModule_def split: if_splits source.splits)

lemma checkConflicts_error:
  "checkConflicts cfg fullPath method fileExt routePath st = (Some e, st') \<Longrightarrow>
   st' = st \<and> ((\<exists>a b c d. e = ExtensionConflict a b c d) \<or> (strict cfg \<and> (\<exists>a b c d. e = DynamicConflict a b c d)))"
  by (auto simp: checkConflicts_def Let_def split: option.splits if_splits)

lemma loadRoute_error:
  "loadRoute cfg fullPath method routePath src st = (Some e, st') \<Longrightarrow> e \<noteq> NoHandlerExported p"
  by (auto simp: loadRoute_def Let_def split: sum.splits jsval.splits option.splits
           dest: resolveMiddlewares_error importModule_error)

lemma registerFile_no_missing_handler:
  "fst (registerFile cfg fullPath prefixPath name src st) \<noteq> Some (NoHandlerExported p)"
proof (cases "methodMatch name")
  case None
  then show ?thesis by (simp add: registerFile_def)
next
  case (Some ve)
  obtain verb ext where ve: "ve = (verb, ext)" by (cases ve)
  let ?m = "toLowerCase verb" and ?p = "routePathOf (normalizedPrefix cfg) prefixPath"
  obtain r1 s1 where c: "checkConflicts cfg fullPath ?m ext ?p st = (r1, s1)" by fastforce
  show ?thesis
  proof (cases r1)
    case (Some e)
    with c checkConflicts_error [of cfg fullPath ?m ext ?p st e s1] \<open>methodMatch name = Some ve\<close> ve
    show ?thesis by (auto simp: registerFile_def Let_def)
  next
    case None
    obtain r2 s2 where l: "loadRoute cfg fullPath ?m ?p src s1 = (r2, s2)" by fastforce
    with None c \<open>methodMatch name = Some ve\<close> ve loadRoute_error [of cfg fullPath ?m ?p src s1 _ s2 p]
    show ?thesis by (cases r2) (auto simp: registerFile_def Let_def)
  qed
qed

lemma loadRoute_handler_irrelevant:
  assumes "\<not> truthy (rm_default m)" and "\<not> truthy (rm_handler m)"
  shows "fst (loadRoute cfg fullPath mth routePath (Evaluates m) st)
     = fst (loadRoute cfg fullPath mth routePath
              (Evaluates (m\<lparr>rm_default := JFun k, rm_handler := JUndefined\<rparr>)) st)"
  using assms
  by (simp add: loadRoute_def importModule_def callbackOf_def Let_def
           split: sum.splits jsval.splits option.splits)

lemma registerFile_handler_irrelevant:
  assumes "\<not> truthy (rm_default m)" and "\<not> truthy (rm_handler m)"
  shows "fst (registerFile cfg fullPath prefixPath name (Evaluates m) st)
     = fst (registerFile cfg fullPath prefixPath name
              (Evaluates (m\<lparr>rm_default := JFun k, rm_handler := JUndefined\<rparr>)) st)"
  using loadRoute_handler_irrelevant [OF assms]
  by (auto simp: registerFile_def Let_def split: option.splits prod.splits)

lemma loadRoute_substitute:
  assumes "\<not> truthy (rm_default m)" "\<not> truthy (rm_handler m)"
    and "loadRoute cfg fullPath method routePath (Evaluates m) st = (None, st')"
  shows "\<exists>r. app st' = app st @ [r] \<and> r_handler r = Substitute fullPath"
  using assms
  by (auto simp: loadRoute_def importModule_def Let_def
           split: sum.splits jsval.splits option.splits if_splits)

text \<open>
  Claim C7. For a module that exports neither a default nor a \<^verbatim>\<open>handler\<close>, the loop body
  fails exactly when it would fail for the same module with a default export, and never
  with the missing-handler error. When it succeeds, the route it registers carries the
  substitute handler, and calling that handler throws the error naming the file.
\<close>

theorem missing_handler_deferred:
  assumes "\<not> truthy (rm_default m)" and "\<not> truthy (rm_handler m)"
  shows "fst (registerFile cfg fullPath prefixPath name (Evaluates m) st)
           = fst (registerFile cfg fullPath prefixPath name
                    (Evaluates (m\<lparr>rm_default := JFun k, rm_handler := JUndefined\<rparr>)) st)
       \<and> (\<forall>p. fst (registerFile cfg fullPath prefixPath name (Evaluates m) st) \<noteq> Some (NoHandlerExported p))
       \<and> (fst (registerFile cfg fullPath prefixPath name (Evaluates m) st) = None \<and> methodMatch name \<noteq> None
            \<longrightarrow> (\<exists>r. app (snd (registerFile cfg fullPath prefixPath name (Evaluates m) st)) = app st @ [r]
                    \<and> r_handler r = Substitute fullPath
                    \<and> invokeHandler (r_handler r) = Inl (NoHandlerExported fullPath)))"
proof -
  let ?reg = "registerFile cfg fullPath prefixPath name (Evaluates m) st"
  have 3: "\<exists>r. app (snd ?reg) = app st @ [r] \<and> r_handler r = Substitute fullPath
              \<and> invokeHandler (r_handler r) = Inl (NoHandlerExported fullPath)"
    if ok: "fst ?reg = None" and mm: "methodMatch name \<noteq> None"
  proof -
    from mm obtain verb ext where ve: "methodMatch name = Some (verb, ext)" by auto
    let ?m = "toLowerCase verb" and ?p = "routePathOf (normalizedPrefix cfg) prefixPath"
    obtain r1 s1 where c: "checkConflicts cfg fullPath ?m ext ?p st = (r1, s1)" by fastforce
    from ok ve c have r1: "r1 = None"
      by (cases r1) (auto simp: registerFile_def Let_def)
    with ve c have e: "?reg = loadRoute cfg fullPath ?m ?p (Evaluates m) s1"
      by (simp add: registerFile_def Let_def)
    with ok have "loadRoute cfg fullPath ?m ?p (Evaluates m) s1 = (None, snd ?reg)"
      by (metis prod.collapse)
    from loadRoute_substitute [OF assms this] checkConflicts_app [OF c] show ?thesis
      by auto
  qed
  from registerFile_handler_irrelevant [OF assms, where k = k]
    registerFile_no_missing_handler [of cfg fullPath prefixPath name "Evaluates m" st] 3
  show ?thesis by blast
qed

theorem missing_handler_deferred_witness:
  "\<exists>r. app (snd (registerFile (ex_cfg False) ''/p/src/routes/a/GET.js'' ''/a'' ''GET.js'' bareModule (initState [])))
         = [r]
       \<and> r_handler r = Substitute ''/p/src/routes/a/GET.js''
       \<and> invokeHandler (r_handler r) = Inl (NoHandlerExported ''/p/src/routes/a/GET.js'')"
proof -
  let ?m = "\<lparr>rm_default = JUndefined, rm_handler = JUndefined, rm_middlewares = JUndefined\<rparr>"
  have t: "\<not> truthy (rm_default ?m)" "\<not> truthy (rm_handler ?m)" by simp_all
  have ok: "fst (registerFile (ex_cfg False) ''/p/src/routes/a/GET.js'' ''/a'' ''GET.js'' (Evaluates ?m) (initState [])) = None"
    by code_simp
  have mm: "methodMatch ''GET.js'' \<noteq> None" by code_simp
  from missing_handler_deferred [OF t, of "ex_cfg False" "''/p/src/routes/a/GET.js''" "''/a''" "''GET.js''" "initState []"]
    ok mm
  show ?thesis by (simp add: bareModule_def initState_def)
qed




subsection \<open>Introspection and the handler\<close>

lemma inspectConflicts_error:
  "inspectConflicts cfg fullPath method fileExt routePath st = (Some e, st') \<Longrightarrow>
   st' = st \<and> ((\<exists>a b. e = InspectExtensionConflict a b) \<or> (strict cfg \<and> (\<exists>a b. e = InspectDynamicConflict a b)))"
  by (auto simp: inspectConflicts_def Let_def split: option.splits if_splits)

lemma inspectConflicts_routes:
  "inspectConflicts cfg fullPath method fileExt routePath st = (res, st') \<Longrightarrow> i_routes st' = i_routes st"
  by (auto simp: inspectConflicts_def Let_def split: option.splits if_splits)

lemma inspectRoute_error:
  "inspectRoute cfg fullPath method fileExt routePath src st = (Some e, st') \<Longrightarrow> e \<noteq> NoHandlerExported p"
  by (auto simp: inspectRoute_def Let_def split: sum.splits jsval.splits
           dest: resolveMiddlewares_error importModule_error)

lemma inspectFile_no_missing_handler:
  "fst (inspectFile cfg fullPath prefixPath name src st) \<noteq> Some (NoHandlerExported p)"
proof (cases "methodMatch name")
  case None
  then show ?thesis by (simp add: inspectFile_def)
next
  case (Some ve)
  obtain verb ext where ve: "ve = (verb, ext)" by (cases ve)
  let ?m = "toLowerCase verb" and ?p = "routePathOf (normalizedPrefix cfg) prefixPath"
  obtain r1 s1 where c: "inspectConflicts cfg fullPath ?m ext ?p st = (r1, s1)" by fastforce
  show ?thesis
  proof (cases r1)
    case (Some e)
    with c inspectConflicts_error [of cfg fullPath ?m ext ?p st e s1] \<open>methodMatch name = Some ve\<close> ve
    show ?thesis by (auto simp: inspectFile_def Let_def)
  next
    case None
    obtain r2 s2 where l: "inspectRoute cfg fullPath ?m ext ?p src s1 = (r2, s2)" by fastforce
    with None c \<open>methodMatch name = Some ve\<close> ve inspectRoute_error [of cfg fullPath ?m ext ?p src s1 _ s2 p]
    show ?thesis by (cases r2) (auto simp: inspectFile_def Let_def)
  qed
qed

lemma iwalk_no_missing_handler:
  "fst (iwalk cfg currentDir prefixPath items st) \<noteq> Some (NoHandlerExported p)"
proof (induction cfg currentDir prefixPath items st rule: iwalk.induct)
  case (1 cfg currentDir prefixPath st)
  then show ?case by simp
next
  case (2 cfg currentDir prefixPath name sub items st)
  then show ?case by (auto split: prod.splits option.splits)
next
  case (3 cfg currentDir prefixPath name src items st)
  with inspectFile_no_missing_handler [of cfg "path_join currentDir name" prefixPath name src st p]
  show ?case by (auto split: prod.splits option.splits)
qed

lemma loadFiles_no_missing_handler:
  "fst (loadFiles tsx dir files ld) \<noteq> Some (NoHandlerExported p)"
  by (induction tsx dir files ld rule: loadFiles.induct)
     (auto simp: Let_def importMiddleware_def split: sum.splits if_splits source.splits bool.splits)

lemma loadMiddlewares_no_missing_handler:
  "fst (loadMiddlewares cmp tsx dir mwDir ld) \<noteq> Some (NoHandlerExported p)"
proof (cases mwDir)
  case None
  then show ?thesis by (simp add: loadMiddlewares_def)
next
  case (Some files)
  obtain r ld' where l: "loadFiles tsx dir files ld = (r, ld')" by fastforce
  with loadFiles_no_missing_handler [of tsx dir files ld p] have "r \<noteq> Some (NoHandlerExported p)"
    by simp
  with l Some show ?thesis
    by (cases r) (simp_all add: loadMiddlewares_def)
qed

lemma inspectRoutes_no_missing_handler: "fst (inspectRoutes ev) \<noteq> Inl (NoHandlerExported p)"
proof (cases "e_routes ev")
  case None
  then show ?thesis by (simp add: inspectRoutes_def)
next
  case (Some items)
  obtain r ld where l: "loadMiddlewares (e_localeCompare ev) (e_tsx ev) (middlewaresDirOf ev)
                          (e_middlewares ev) newLoader = (r, ld)" by fastforce
  with loadMiddlewares_no_missing_handler
         [of "e_localeCompare ev" "e_tsx ev" "middlewaresDirOf ev" "e_middlewares ev" newLoader p]
  have r: "r \<noteq> Some (NoHandlerExported p)" by simp
  obtain r' st where w: "iwalk (configOf ev ld) (baseDirOf ev) [] items initIState = (r', st)"
    by fastforce
  with iwalk_no_missing_handler [of "configOf ev ld" "baseDirOf ev" "[]" items initIState p]
  have r': "r' \<noteq> Some (NoHandlerExported p)" by simp
  show ?thesis
  proof (cases r)
    case (Some e)
    with Some l r \<open>e_routes ev = Some items\<close> show ?thesis by (simp add: inspectRoutes_def)
  next
    case None
    with l w r' \<open>e_routes ev = Some items\<close> show ?thesis
      by (cases r') (simp_all add: inspectRoutes_def Let_def)
  qed
qed

lemma inspectRoute_handler_field:
  assumes "\<not> truthy (rm_default m)"
    and "inspectRoute cfg fullPath method fileExt routePath (Evaluates m) st = (None, st')"
  shows "\<exists>ri. i_routes st' = i_routes st @ [ri] \<and> ri_handler ri = ''handler''
              \<and> ri_method ri = toUpperCase method \<and> ri_path ri = routePath"
  using assms
  by (auto simp: inspectRoute_def importModule_def Let_def split: sum.splits jsval.splits if_splits)

subsection \<open>Method files and their extensions\<close>

lemma lowerChar_dot: "lowerChar c = CHR ''.'' \<Longrightarrow> c = CHR ''.''"
  and lowerChar_slash: "lowerChar c \<noteq> CHR ''/'' \<Longrightarrow> c \<noteq> CHR ''/''"
  and lowerChar_not_dot: "lowerChar c \<noteq> CHR ''.'' \<Longrightarrow> c \<noteq> CHR ''.''"
proof -
  show "lowerChar c = CHR ''.'' \<Longrightarrow> c = CHR ''.''"
  proof (cases "CHR ''A'' \<le> c \<and> c \<le> CHR ''Z''")
    case False
    assume "lowerChar c = CHR ''.''"
    with False show ?thesis by (auto simp: lowerChar_def split: if_splits)
  next
    case True
    assume a: "lowerChar c = CHR ''.''"
    from True have r: "65 \<le> (of_char c :: nat)" "(of_char c :: nat) \<le> 90"
      by (simp_all add: less_eq_char_def)
    from a True have "char_of (of_char c + (32::nat)) = CHR ''.''" by (simp add: lowerChar_def)
    then have "(of_char (char_of (of_char c + (32::nat)) :: char) :: nat) = of_char CHR ''.''" by simp
    with r show ?thesis by simp
  qed
  show "lowerChar c \<noteq> CHR ''/'' \<Longrightarrow> c \<noteq> CHR ''/''"
    by (auto simp: lowerChar_def less_eq_char_def)
  show "lowerChar c \<noteq> CHR ''.'' \<Longrightarrow> c \<noteq> CHR ''.''"
    by (auto simp: lowerChar_def less_eq_char_def)
qed

lemma extname_method_file:
  assumes "verb \<noteq> []" and "CHR ''.'' \<notin> set ext" and "CHR ''/'' \<notin> set (verb @ CHR ''.'' # ext)"
  shows "extname (path_join dir (verb @ CHR ''.'' # ext)) = CHR ''.'' # ext"
proof -
  let ?n = "verb @ CHR ''.'' # ext"
  from assms(3) have "takeWhile (\<lambda>c. c \<noteq> CHR ''/'') (rev ?n @ CHR ''/'' # rev dir) = rev ?n"
    by (subst takeWhile_append2) auto
  then have b: "basename (path_join dir ?n) = ?n"
    by (simp add: basename_def path_join_def)
  from assms(2) have t: "takeWhile (\<lambda>c. c \<noteq> CHR ''.'') (rev ext @ CHR ''.'' # rev verb) = rev ext"
    by (subst takeWhile_append2) auto
  from b t assms(1) show ?thesis
    by (simp add: extname_def Let_def)
qed

lemma methodMatch_shape:
  assumes "methodMatch name = Some (verb, ext)"
  shows "name = verb @ CHR ''.'' # ext \<and> verb \<noteq> [] \<and> CHR ''.'' \<notin> set ext \<and> CHR ''/'' \<notin> set name"
proof -
  from assms have l: "map lowerChar name \<in> set [''get.js'', ''get.ts'', ''post.js'', ''post.ts'',
       ''put.js'', ''put.ts'', ''patch.js'', ''patch.ts'', ''delete.js'', ''delete.ts'']"
    and v: "verb = take (length name - 3) name" and e: "ext = drop (length name - 2) name"
    by (auto simp: methodMatch_def toLowerCase_def split: if_splits)
  have k: "\<And>c d. lowerChar c = d \<Longrightarrow> d \<noteq> CHR ''.'' \<Longrightarrow> d \<noteq> CHR ''/'' \<Longrightarrow> c \<noteq> CHR ''.'' \<and> c \<noteq> CHR ''/''"
    using lowerChar_slash lowerChar_not_dot by blast
  from l consider
      "map lowerChar name = ''get.js''" | "map lowerChar name = ''get.ts''"
    | "map lowerChar name = ''post.js''" | "map lowerChar name = ''post.ts''"
    | "map lowerChar name = ''put.js''" | "map lowerChar name = ''put.ts''"
    | "map lowerChar name = ''patch.js''" | "map lowerChar name = ''patch.ts''"
    | "map lowerChar name = ''delete.js''" | "map lowerChar name = ''delete.ts''"
    by auto
  then show ?thesis
  proof cases
    case 1 then show ?thesis using v e by (auto simp: map_eq_Cons_conv dest!: lowerChar_dot dest: k)
  next
    case 2 then show ?thesis using v e by (auto simp: map_eq_Cons_conv dest!: lowerChar_dot dest: k)
  next
    case 3 then show ?thesis using v e by (auto simp: map_eq_Cons_conv dest!: lowerChar_dot dest: k)
  next
    case 4 then show ?thesis using v e by (auto simp: map_eq_Cons_conv dest!: lowerChar_dot dest: k)
  next
    case 5 then show ?thesis using v e by (auto simp: map_eq_Cons_conv dest!: lowerChar_dot dest: k)
  next
    case 6 then show ?thesis using v e by (auto simp: map_eq_Cons_conv dest!: lowerChar_dot dest: k)
  next
    case 7 then show ?thesis using v e by (auto simp: map_eq_Cons_conv dest!: lowerChar_dot dest: k)
  next
    case 8 then show ?thesis using v e by (auto simp: map_eq_Cons_conv dest!: lowerChar_dot dest: k)
  next
    case 9 then show ?thesis using v e by (auto simp: map_eq_Cons_conv dest!: lowerChar_dot dest: k)
  next
    case 10 then show ?thesis using v e by (auto simp: map_eq_Cons_conv dest!: lowerChar_dot dest: k)
  qed
qed

lemma extname_of_visit:
  "methodMatch name = Some (verb, ext) \<Longrightarrow> extname (path_join dir name) = CHR ''.'' # ext"
  using methodMatch_shape [of name verb ext] extname_method_file [of verb ext dir] by auto

subsection \<open>The registries along the walk\<close>

lemma checkConflicts_ext:
  "fileRegistry st (mth @ '':'' @ routePath) = Some e \<Longrightarrow> extname e \<noteq> CHR ''.'' # fileExt \<Longrightarrow>
   checkConflicts cfg fullPath mth fileExt routePath st
     = (Some (ExtensionConflict e fullPath (toUpperCase mth) routePath), st)"
  by (simp add: checkConflicts_def Let_def)

lemma checkConflicts_strict:
  "\<forall>e. fileRegistry st (mth @ '':'' @ routePath) = Some e \<longrightarrow> extname e = CHR ''.'' # fileExt \<Longrightarrow>
   routeRegistry st (mth @ '':'' @ normalizeDynamic routePath) = Some prev \<Longrightarrow> strict cfg \<Longrightarrow>
   checkConflicts cfg fullPath mth fileExt routePath st
     = (Some (DynamicConflict prev fullPath (toUpperCase mth) routePath), st)"
  by (auto simp: checkConflicts_def Let_def split: option.splits)

lemma checkConflicts_warn:
  "\<forall>e. fileRegistry st (mth @ '':'' @ routePath) = Some e \<longrightarrow> extname e = CHR ''.'' # fileExt \<Longrightarrow>
   routeRegistry st (mth @ '':'' @ normalizeDynamic routePath) = Some prev \<Longrightarrow> \<not> strict cfg \<Longrightarrow>
   checkConflicts cfg fullPath mth fileExt routePath st
     = (None, st\<lparr>fileRegistry := (fileRegistry st)(mth @ '':'' @ routePath \<mapsto> fullPath),
                  warnings := warnings st @ [DynamicConflict prev fullPath (toUpperCase mth) routePath]\<rparr>)"
  by (auto simp: checkConflicts_def Let_def split: option.splits)

lemma checkConflicts_success:
  assumes "checkConflicts cfg fullPath mth fileExt routePath st = (None, st')"
  shows "(\<forall>e. fileRegistry st (mth @ '':'' @ routePath) = Some e \<longrightarrow> extname e = CHR ''.'' # fileExt)
       \<and> fileRegistry st' = (fileRegistry st)(mth @ '':'' @ routePath \<mapsto> fullPath)
       \<and> routeRegistry st'
           = (case routeRegistry st (mth @ '':'' @ normalizeDynamic routePath) of
                None \<Rightarrow> (routeRegistry st)(mth @ '':'' @ normalizeDynamic routePath \<mapsto> fullPath)
              | Some prev \<Rightarrow> routeRegistry st)
       \<and> (strict cfg \<longrightarrow> routeRegistry st (mth @ '':'' @ normalizeDynamic routePath) = None)"
  using assms
  by (auto simp: checkConflicts_def Let_def split: option.splits if_splits)

lemma registerVisit_other: "methodOf v = None \<Longrightarrow> registerVisit cfg v st = (None, st)"
  by (cases v) (auto simp: methodOf_def registerVisit_def registerFile_def)

lemma registerVisit_method:
  assumes "methodOf v = Some mth" and "extOf v = Some ext"
  shows "registerVisit cfg v st =
           (case checkConflicts cfg (fullPathOf v) mth ext (pathOf cfg v) st of
              (Some e, st') \<Rightarrow> (Some e, st')
            | (None, st') \<Rightarrow> loadRoute cfg (fullPathOf v) mth (pathOf cfg v) (snd (snd (snd v))) st')"
  using assms
  by (cases v) (auto simp: methodOf_def extOf_def registerVisit_def registerFile_def fullPathOf_def
                      pathOf_def Let_def split: option.splits prod.splits)

lemma method_has_ext: "methodOf v = Some mth \<Longrightarrow> \<exists>ext. extOf v = Some ext"
  by (cases v) (auto simp: methodOf_def extOf_def)

lemma ext_has_method: "extOf v = Some ext \<Longrightarrow> \<exists>mth. methodOf v = Some mth"
  by (cases v) (auto simp: methodOf_def extOf_def)

lemma extname_fullPathOf: "extOf v = Some ext \<Longrightarrow> extname (fullPathOf v) = CHR ''.'' # ext"
  by (cases v) (auto simp: extOf_def fullPathOf_def dest: extname_of_visit)

lemma registerVisit_success:
  assumes "registerVisit cfg v st = (None, st')"
    and "methodOf v = Some mth" and "extOf v = Some ext"
  shows "(\<forall>e. fileRegistry st (mth @ '':'' @ pathOf cfg v) = Some e \<longrightarrow> extname e = CHR ''.'' # ext)
       \<and> fileRegistry st' = (fileRegistry st)(mth @ '':'' @ pathOf cfg v \<mapsto> fullPathOf v)
       \<and> routeRegistry st'
           = (case routeRegistry st (mth @ '':'' @ normalizeDynamic (pathOf cfg v)) of
                None \<Rightarrow> (routeRegistry st)(mth @ '':'' @ normalizeDynamic (pathOf cfg v) \<mapsto> fullPathOf v)
              | Some prev \<Rightarrow> routeRegistry st)
       \<and> (strict cfg \<longrightarrow> routeRegistry st (mth @ '':'' @ normalizeDynamic (pathOf cfg v)) = None)"
proof -
  obtain r1 s1 where c: "checkConflicts cfg (fullPathOf v) mth ext (pathOf cfg v) st = (r1, s1)"
    by fastforce
  from assms c registerVisit_method [OF assms(2,3), of cfg st]
  have r1: "r1 = None" by (cases r1) auto
  with assms c registerVisit_method [OF assms(2,3), of cfg st]
  have l: "loadRoute cfg (fullPathOf v) mth (pathOf cfg v) (snd (snd (snd v))) s1 = (None, st')"
    by simp
  from loadRoute_effect [OF l] checkConflicts_success [OF c [unfolded r1]]
  show ?thesis by simp
qed

lemma find_snoc:
  "find P (xs @ [x]) = (case find P xs of Some y \<Rightarrow> Some y | None \<Rightarrow> if P x then Some x else None)"
  by (induction xs) auto

lemma run_fileRegistry:
  "runVisits cfg vs st = (None, st') \<Longrightarrow>
   fileRegistry st' sg = (case find (\<lambda>v. signatureOf cfg v = Some sg) (rev vs) of
                            Some v \<Rightarrow> Some (fullPathOf v)
                          | None \<Rightarrow> fileRegistry st sg)"
proof (induction vs arbitrary: st)
  case Nil
  then show ?case by simp
next
  case (Cons v vs)
  from Cons.prems obtain s1 where v: "registerVisit cfg v st = (None, s1)"
    and r: "runVisits cfg vs s1 = (None, st')"
    by (auto split: prod.splits option.splits)
  have s1: "fileRegistry s1 sg = (if signatureOf cfg v = Some sg then Some (fullPathOf v) else fileRegistry st sg)"
  proof (cases "methodOf v")
    case None
    with v registerVisit_other [OF None, of cfg st] show ?thesis by (simp add: signatureOf_def)
  next
    case (Some mth)
    then obtain ext where e: "extOf v = Some ext" using method_has_ext by blast
    from registerVisit_success [OF v Some e] Some show ?thesis
      by (auto simp: signatureOf_def)
  qed
  from Cons.IH [OF r] s1 show ?case
    by (simp add: find_snoc split: option.splits)
qed

lemma run_routeRegistry:
  "runVisits cfg vs st = (None, st') \<Longrightarrow>
   routeRegistry st' fp = (case routeRegistry st fp of
                             Some prev \<Rightarrow> Some prev
                           | None \<Rightarrow> map_option fullPathOf (find (\<lambda>v. fingerprintOf cfg v = Some fp) vs))"
proof (induction vs arbitrary: st)
  case Nil
  then show ?case by (simp split: option.splits)
next
  case (Cons v vs)
  from Cons.prems obtain s1 where v: "registerVisit cfg v st = (None, s1)"
    and r: "runVisits cfg vs s1 = (None, st')"
    by (auto split: prod.splits option.splits)
  have s1: "routeRegistry s1 fp = (case routeRegistry st fp of
                                     Some prev \<Rightarrow> Some prev
                                   | None \<Rightarrow> if fingerprintOf cfg v = Some fp then Some (fullPathOf v) else None)"
  proof (cases "methodOf v")
    case None
    with v registerVisit_other [OF None, of cfg st] show ?thesis
      by (simp add: fingerprintOf_def split: option.splits)
  next
    case (Some mth)
    then obtain ext where e: "extOf v = Some ext" using method_has_ext by blast
    from registerVisit_success [OF v Some e] Some show ?thesis
      by (auto simp: fingerprintOf_def split: option.splits)
  qed
  from Cons.IH [OF r] s1 show ?case
    by (simp split: option.splits)
qed

lemma run_ext_uniform:
  assumes "runVisits cfg vs st = (None, st')"
    and "\<forall>v\<in>set done. \<forall>sg ext. signatureOf cfg v = Some sg \<longrightarrow> extOf v = Some ext \<longrightarrow>
           (\<exists>e. fileRegistry st sg = Some e \<and> extname e = CHR ''.'' # ext)"
  shows "\<forall>v\<in>set (done @ vs). \<forall>sg ext. signatureOf cfg v = Some sg \<longrightarrow> extOf v = Some ext \<longrightarrow>
           (\<exists>e. fileRegistry st' sg = Some e \<and> extname e = CHR ''.'' # ext)"
  using assms
proof (induction vs arbitrary: st "done")
  case Nil
  then show ?case by simp
next
  case (Cons v vs)
  from Cons.prems(1) obtain s1 where v: "registerVisit cfg v st = (None, s1)"
    and r: "runVisits cfg vs s1 = (None, st')"
    by (auto split: prod.splits option.splits)
  have "\<forall>w\<in>set (done @ [v]). \<forall>sg ext. signatureOf cfg w = Some sg \<longrightarrow> extOf w = Some ext \<longrightarrow>
           (\<exists>e. fileRegistry s1 sg = Some e \<and> extname e = CHR ''.'' # ext)"
  proof (cases "methodOf v")
    case None
    with v registerVisit_other [OF None, of cfg st] Cons.prems(2) show ?thesis
      by (auto simp: signatureOf_def)
  next
    case (Some mth)
    then obtain x where e: "extOf v = Some x" using method_has_ext by blast
    note s = registerVisit_success [OF v Some e]
    show ?thesis
    proof (intro ballI allI impI)
      fix w sg ext
      assume w: "w \<in> set (done @ [v])" and sg: "signatureOf cfg w = Some sg" and ex: "extOf w = Some ext"
      show "\<exists>e. fileRegistry s1 sg = Some e \<and> extname e = CHR ''.'' # ext"
      proof (cases "sg = mth @ '':'' @ pathOf cfg v")
        case False
        with w sg Some have "w \<in> set done" by (auto simp: signatureOf_def)
        with Cons.prems(2) sg ex False s show ?thesis by auto
      next
        case True
        have "ext = x"
        proof (cases "w = v")
          case True
          with e ex show ?thesis by simp
        next
          case False
          with w have "w \<in> set done" by simp
          with Cons.prems(2) sg ex obtain e' where "fileRegistry st sg = Some e'" "extname e' = CHR ''.'' # ext"
            by blast
          with s True show ?thesis by auto
        qed
        with s True extname_fullPathOf [OF e] show ?thesis by simp
      qed
    qed
  qed
  from Cons.IH [OF r this] show ?case by simp
qed

lemma run_app_grows: "runVisits cfg vs st = (res, st') \<Longrightarrow> \<exists>new. app st' = app st @ new"
proof (induction vs arbitrary: st)
  case Nil
  then show ?case by simp
next
  case (Cons v vs)
  obtain r1 s1 where v: "registerVisit cfg v st = (r1, s1)" by fastforce
  obtain c f n s where "v = (c, f, n, s)" by (cases v)
  with v registerFile_app [of cfg "path_join c n" "dirPrefix f" n s st r1 s1]
  have a: "\<exists>new. app s1 = app st @ new" by (auto simp: registerVisit_def)
  show ?case
  proof (cases r1)
    case None
    with v Cons.prems have "runVisits cfg vs s1 = (res, st')" by simp
    from Cons.IH [OF this] a show ?thesis by auto
  next
    case (Some e)
    with v Cons.prems a show ?thesis by auto
  qed
qed

lemma registerVisit_app:
  "registerVisit cfg v st = (res, st') \<Longrightarrow>
   (res \<noteq> None \<longrightarrow> app st' = app st) \<and> (\<exists>new. app st' = app st @ new \<and> length new \<le> 1)"
proof -
  assume a: "registerVisit cfg v st = (res, st')"
  obtain c f n s where "v = (c, f, n, s)" by (cases v)
  with a registerFile_app [of cfg "path_join c n" "dirPrefix f" n s st res st']
  show ?thesis by (auto simp: registerVisit_def)
qed

subsection \<open>Conflicts\<close>

lemma pathOf_strict: "pathOf (cfg\<lparr>strict := b\<rparr>) v = pathOf cfg v"
  by (cases v) (simp add: pathOf_def)

lemma signature_parts:
  "signatureOf cfg v = Some sg \<Longrightarrow>
   \<exists>mth ext. methodOf v = Some mth \<and> extOf v = Some ext \<and> sg = mth @ '':'' @ pathOf cfg v"
  by (auto simp: signatureOf_def dest: method_has_ext)

lemma fingerprint_parts:
  "fingerprintOf cfg v = Some fp \<Longrightarrow>
   \<exists>mth ext. methodOf v = Some mth \<and> extOf v = Some ext
      \<and> fp = mth @ '':'' @ normalizeDynamic (pathOf cfg v)
      \<and> signatureOf cfg v = Some (mth @ '':'' @ pathOf cfg v)"
  by (auto simp: fingerprintOf_def signatureOf_def dest: method_has_ext)

lemma find_SomeD: "find P xs = Some y \<Longrightarrow> P y \<and> y \<in> set xs"
  by (induction xs) (auto split: if_splits)

text \<open>
  Claim C3, as the code has it. In a tree whose files are visited in the order \<open>before\<close>, \<open>v2\<close>, \<open>after\<close>, let
  the walk have got through the files \<open>before\<close>, one of which has the route signature
  (method and final path) of \<open>v2\<close> and a different extension. Then the loop body throws the
  extension-conflict error at \<open>v2\<close>, whatever \<open>strict\<close> is, and \<^verbatim>\<open>walk\<close> ends with it. The error names \<open>v2\<close>, its method and route path, and the file
  registered for that signature: the latest earlier file with it, whose extension is the
  other one; this is the earlier file of the pair when no other file shares the signature.
\<close>

theorem extension_conflict_always_fatal:
  assumes tree: "visits currentDir folders items = before @ v2 # after"
    and ok: "runVisits cfg before (initState app0) = (None, st1)"
    and v1: "v1 \<in> set before"
    and s1: "signatureOf cfg v1 = Some sg" and s2: "signatureOf cfg v2 = Some sg"
    and e1: "extOf v1 = Some ext1" and e2: "extOf v2 = Some ext2" and ne: "ext1 \<noteq> ext2"
  shows "\<exists>existing mth.
           find (\<lambda>v. signatureOf cfg v = Some sg) (rev before) = Some existing
         \<and> extOf existing = Some ext1
         \<and> methodOf v2 = Some mth
         \<and> (\<forall>b. registerVisit (cfg\<lparr>strict := b\<rparr>) v2 st1
                  = (Some (ExtensionConflict (fullPathOf existing) (fullPathOf v2)
                             (toUpperCase mth) (pathOf cfg v2)), st1))
         \<and> walk cfg currentDir (dirPrefix folders) items (initState app0)
             = (Some (ExtensionConflict (fullPathOf existing) (fullPathOf v2)
                        (toUpperCase mth) (pathOf cfg v2)), st1)
         \<and> ((\<forall>v\<in>set before. signatureOf cfg v = Some sg \<longrightarrow> v = v1) \<longrightarrow> existing = v1)"
proof -
  have "\<forall>v\<in>set ([] @ before). \<forall>sg ext. signatureOf cfg v = Some sg \<longrightarrow> extOf v = Some ext \<longrightarrow>
           (\<exists>e. fileRegistry st1 sg = Some e \<and> extname e = CHR ''.'' # ext)"
    by (rule run_ext_uniform [OF ok]) simp
  with v1 have "\<forall>sg ext. signatureOf cfg v1 = Some sg \<longrightarrow> extOf v1 = Some ext \<longrightarrow>
           (\<exists>e. fileRegistry st1 sg = Some e \<and> extname e = CHR ''.'' # ext)"
    by simp
  with s1 e1 obtain e where e: "fileRegistry st1 sg = Some e" "extname e = CHR ''.'' # ext1"
    by blast
  from run_fileRegistry [OF ok, of sg] e
  obtain existing where f: "find (\<lambda>v. signatureOf cfg v = Some sg) (rev before) = Some existing"
    and ee: "e = fullPathOf existing"
    by (auto simp: initState_def split: option.splits)
  from find_SomeD [OF f] have x: "signatureOf cfg existing = Some sg" "existing \<in> set before"
    by simp_all
  from signature_parts [OF x(1)] obtain xe where xe: "extOf existing = Some xe" by blast
  from extname_fullPathOf [OF xe] e ee have xe1: "xe = ext1" by simp
  from signature_parts [OF s2] e2 obtain mth where
    m: "methodOf v2 = Some mth" and sg: "sg = mth @ '':'' @ pathOf cfg v2" by auto
  from e ne have clash: "extname e \<noteq> CHR ''.'' # ext2" by simp
  have step: "registerVisit (cfg\<lparr>strict := b\<rparr>) v2 st1
                = (Some (ExtensionConflict e (fullPathOf v2) (toUpperCase mth) (pathOf cfg v2)), st1)" for b
    using checkConflicts_ext [of st1 mth "pathOf cfg v2" e ext2 "cfg\<lparr>strict := b\<rparr>" "fullPathOf v2"]
      e(1) clash sg registerVisit_method [OF m e2, of "cfg\<lparr>strict := b\<rparr>" st1]
    by (simp add: pathOf_strict)
  from step [of "strict cfg"] have "registerVisit cfg v2 st1
      = (Some (ExtensionConflict e (fullPathOf v2) (toUpperCase mth) (pathOf cfg v2)), st1)"
    by simp
  with ok have "runVisits cfg (before @ v2 # after) (initState app0)
      = (Some (ExtensionConflict e (fullPathOf v2) (toUpperCase mth) (pathOf cfg v2)), st1)"
    by (simp add: runVisits_append)
  with tree walk_visits [OF refl, of cfg currentDir folders items "initState app0"]
  have run: "walk cfg currentDir (dirPrefix folders) items (initState app0)
      = (Some (ExtensionConflict e (fullPathOf v2) (toUpperCase mth) (pathOf cfg v2)), st1)"
    by simp
  have last: "(\<forall>v\<in>set before. signatureOf cfg v = Some sg \<longrightarrow> v = v1) \<longrightarrow> existing = v1"
    using x by blast
  from xe xe1 have "extOf existing = Some ext1" by simp
  with f m step [unfolded ee] run [unfolded ee] last show ?thesis
    by blast
qed

theorem extension_conflict_always_fatal_witness:
  "fst (walk (ex_cfg False) ''/p/src/routes'' [] ex_tree_js_ts (initState []))
     = Some (ExtensionConflict ''/p/src/routes/a/GET.js'' ''/p/src/routes/a/GET.ts'' ''GET'' ''/a'')
   \<and> fst (registerVisit ((ex_cfg False)\<lparr>strict := True\<rparr>) ex_get_ts
            (snd (runVisits (ex_cfg False) [ex_get_js] (initState []))))
     = Some (ExtensionConflict ''/p/src/routes/a/GET.js'' ''/p/src/routes/a/GET.ts'' ''GET'' ''/a'')"
proof -
  let ?cfg = "ex_cfg False"
  let ?st1 = "snd (runVisits ?cfg [ex_get_js] (initState []))"
  have "fst (runVisits ?cfg [ex_get_js] (initState [])) = None" by code_simp
  then have ok: "runVisits ?cfg [ex_get_js] (initState []) = (None, ?st1)"
    by (metis prod.collapse)
  have tree: "visits ''/p/src/routes'' [] ex_tree_js_ts = [ex_get_js] @ ex_get_ts # []" by code_simp
  have v1: "ex_get_js \<in> set [ex_get_js]" by simp
  have s1: "signatureOf ?cfg ex_get_js = Some ''get:/a''" by code_simp
  have s2: "signatureOf ?cfg ex_get_ts = Some ''get:/a''" by code_simp
  have e1: "extOf ex_get_js = Some ''js''" by code_simp
  have e2: "extOf ex_get_ts = Some ''ts''" by code_simp
  have ne: "''js'' \<noteq> ''ts''" by simp
  from extension_conflict_always_fatal [OF tree ok v1 s1 s2 e1 e2 ne]
  obtain existing mth where
    f: "find (\<lambda>v. signatureOf ?cfg v = Some ''get:/a'') (rev [ex_get_js]) = Some existing"
    and m: "methodOf ex_get_ts = Some mth"
    and r: "\<forall>b. registerVisit (?cfg\<lparr>strict := b\<rparr>) ex_get_ts ?st1
                  = (Some (ExtensionConflict (fullPathOf existing) (fullPathOf ex_get_ts)
                             (toUpperCase mth) (pathOf ?cfg ex_get_ts)), ?st1)"
    and w: "walk ?cfg ''/p/src/routes'' (dirPrefix []) ex_tree_js_ts (initState [])
             = (Some (ExtensionConflict (fullPathOf existing) (fullPathOf ex_get_ts)
                        (toUpperCase mth) (pathOf ?cfg ex_get_ts)), ?st1)"
    by blast
  from f s1 have x: "existing = ex_get_js" by simp
  have "methodOf ex_get_ts = Some ''get''" by code_simp
  with m have y: "mth = ''get''" by simp
  have z: "fullPathOf ex_get_js = ''/p/src/routes/a/GET.js''" "fullPathOf ex_get_ts = ''/p/src/routes/a/GET.ts''"
    "toUpperCase ''get'' = ''GET''" "pathOf ?cfg ex_get_ts = ''/a''"
    by code_simp+
  from r w x y z show ?thesis by (simp add: dirPrefix_def)
qed

text \<open>
  Claim C3 as written fails where a third file shares the route: of the pair \<^verbatim>\<open>GET.js\<close>
  and \<^verbatim>\<open>get.ts\<close>, which resolve to the same method and path with different extensions,
  the error names \<^verbatim>\<open>get.ts\<close> but not \<^verbatim>\<open>GET.js\<close>; it names \<^verbatim>\<open>Get.js\<close>, the file registered
  for the route in between.
\<close>

theorem extension_conflict_names_latest_file:
  "signatureOf (ex_cfg False) ex_get_js = signatureOf (ex_cfg False) ex_get_ts_lower
   \<and> extOf ex_get_js = Some ''js'' \<and> extOf ex_get_ts_lower = Some ''ts''
   \<and> visits (baseDirOf (ex_env [] False ex_tree_three)) [] ex_tree_three
       = [ex_get_js, (''/p/src/routes/a'', [''a''], ''Get.js'', handlerModule 8 JUndefined), ex_get_ts_lower]
   \<and> fst (registerRoutes (ex_env [] False ex_tree_three) [])
       = Some (ExtensionConflict ''/p/src/routes/a/Get.js'' ''/p/src/routes/a/get.ts'' ''GET'' ''/a'')
   \<and> fullPathOf ex_get_js = ''/p/src/routes/a/GET.js''
   \<and> fullPathOf ex_get_js \<noteq> ''/p/src/routes/a/Get.js''"
  by code_simp

text \<open>
  Claim C2, as the code has it. In a tree whose files are visited in the order \<open>before\<close>,
  \<open>v2\<close>, \<open>after\<close>, let the walk have got through the files \<open>before\<close>, one of which has
  the method and the normalised fingerprint of \<open>v2\<close>, and let no
  earlier file with the signature of \<open>v2\<close> have another extension (that case is the
  extension conflict, fatal in both modes). The fingerprint is registered to the first
  file that had it. With \<open>strict\<close>, the loop body throws the dynamic-conflict error naming
  that file and \<open>v2\<close>, and \<^verbatim>\<open>walk\<close> ends there, in the state it had reached: no later
  file is processed. Without \<open>strict\<close>, a warning with the same content is printed, the
  fingerprint stays registered to the first file, and the routes already handed to the
  application stay where they are; the route of \<open>v2\<close> is added after them at most.
\<close>

theorem dynamic_conflict_modes:
  assumes tree: "visits currentDir folders items = before @ v2 # after"
    and ok: "runVisits cfg before (initState app0) = (None, st1)"
    and v1: "v1 \<in> set before"
    and f1: "fingerprintOf cfg v1 = Some fp" and f2: "fingerprintOf cfg v2 = Some fp"
    and noext: "\<forall>v\<in>set before. signatureOf cfg v = signatureOf cfg v2 \<longrightarrow> extOf v = extOf v2"
  shows "\<exists>first mth.
           find (\<lambda>v. fingerprintOf cfg v = Some fp) before = Some first
         \<and> methodOf v2 = Some mth
         \<and> routeRegistry st1 fp = Some (fullPathOf first)
         \<and> (strict cfg \<longrightarrow>
               registerVisit cfg v2 st1
                 = (Some (DynamicConflict (fullPathOf first) (fullPathOf v2)
                            (toUpperCase mth) (pathOf cfg v2)), st1)
             \<and> walk cfg currentDir (dirPrefix folders) items (initState app0)
                 = (Some (DynamicConflict (fullPathOf first) (fullPathOf v2)
                            (toUpperCase mth) (pathOf cfg v2)), st1))
         \<and> (\<not> strict cfg \<longrightarrow>
               warnings (snd (registerVisit cfg v2 st1))
                 = warnings st1 @ [DynamicConflict (fullPathOf first) (fullPathOf v2)
                                     (toUpperCase mth) (pathOf cfg v2)]
             \<and> routeRegistry (snd (registerVisit cfg v2 st1)) = routeRegistry st1
             \<and> (\<exists>new. app (snd (registerVisit cfg v2 st1)) = app st1 @ new \<and> length new \<le> 1))"
proof -
  from v1 f1 have "find (\<lambda>v. fingerprintOf cfg v = Some fp) before \<noteq> None"
    unfolding find_None_iff by blast
  then obtain first where f: "find (\<lambda>v. fingerprintOf cfg v = Some fp) before = Some first"
    by auto
  from run_routeRegistry [OF ok, of fp] f have prev: "routeRegistry st1 fp = Some (fullPathOf first)"
    by (simp add: initState_def)
  from fingerprint_parts [OF f2] obtain mth ext2 where
    m: "methodOf v2 = Some mth" and e2: "extOf v2 = Some ext2"
    and fp: "fp = mth @ '':'' @ normalizeDynamic (pathOf cfg v2)"
    and sg: "signatureOf cfg v2 = Some (mth @ '':'' @ pathOf cfg v2)" by blast
  have noclash: "\<forall>e. fileRegistry st1 (mth @ '':'' @ pathOf cfg v2) = Some e \<longrightarrow> extname e = CHR ''.'' # ext2"
  proof (intro allI impI)
    fix e assume e: "fileRegistry st1 (mth @ '':'' @ pathOf cfg v2) = Some e"
    with run_fileRegistry [OF ok, of "mth @ '':'' @ pathOf cfg v2"]
    obtain x where x: "find (\<lambda>v. signatureOf cfg v = Some (mth @ '':'' @ pathOf cfg v2)) (rev before) = Some x"
      and ex: "e = fullPathOf x"
      by (auto simp: initState_def split: option.splits)
    from find_SomeD [OF x] sg have "signatureOf cfg x = signatureOf cfg v2" "x \<in> set before"
      by simp_all
    with noext e2 have "extOf x = Some ext2" by simp
    from extname_fullPathOf [OF this] ex show "extname e = CHR ''.'' # ext2" by simp
  qed
  let ?err = "DynamicConflict (fullPathOf first) (fullPathOf v2) (toUpperCase mth) (pathOf cfg v2)"
  have strictCase: "registerVisit cfg v2 st1 = (Some ?err, st1)
      \<and> walk cfg currentDir (dirPrefix folders) items (initState app0) = (Some ?err, st1)"
    if s: "strict cfg"
  proof -
    from checkConflicts_strict [OF noclash prev [unfolded fp] s, of "fullPathOf v2"]
      registerVisit_method [OF m e2, of cfg st1]
    have rv: "registerVisit cfg v2 st1 = (Some ?err, st1)" by simp
    with ok have "runVisits cfg (before @ v2 # after) (initState app0) = (Some ?err, st1)"
      by (simp add: runVisits_append)
    with tree walk_visits [OF refl, of cfg currentDir folders items "initState app0"] rv
    show ?thesis by simp
  qed
  have warnCase: "warnings (snd (registerVisit cfg v2 st1)) = warnings st1 @ [?err]
      \<and> routeRegistry (snd (registerVisit cfg v2 st1)) = routeRegistry st1
      \<and> (\<exists>new. app (snd (registerVisit cfg v2 st1)) = app st1 @ new \<and> length new \<le> 1)"
    if s: "\<not> strict cfg"
  proof -
    let ?s1 = "st1\<lparr>fileRegistry := (fileRegistry st1)(mth @ '':'' @ pathOf cfg v2 \<mapsto> fullPathOf v2),
                    warnings := warnings st1 @ [?err]\<rparr>"
    obtain r s2 where l: "loadRoute cfg (fullPathOf v2) mth (pathOf cfg v2) (snd (snd (snd v2))) ?s1 = (r, s2)"
      by fastforce
    from checkConflicts_warn [OF noclash prev [unfolded fp] s, of "fullPathOf v2"]
      registerVisit_method [OF m e2, of cfg st1] l
    have rv: "registerVisit cfg v2 st1 = (r, s2)" by simp
    from loadRoute_effect [OF l] have "warnings s2 = warnings st1 @ [?err]" "routeRegistry s2 = routeRegistry st1"
      by simp_all
    with rv registerVisit_app [OF rv] show ?thesis by simp
  qed
  from f m prev strictCase warnCase show ?thesis by blast
qed

theorem dynamic_conflict_modes_witness:
  "warnings (snd (registerVisit (ex_cfg False) ex_by_slug
                    (snd (runVisits (ex_cfg False) [ex_by_id] (initState [])))))
     = [DynamicConflict ''/p/src/routes/product/[id]/GET.js'' ''/p/src/routes/product/[slug]/GET.js''
          ''GET'' ''/product/:slug'']
   \<and> fst (walk (ex_cfg True) ''/p/src/routes'' [] ex_tree_params (initState []))
     = Some (DynamicConflict ''/p/src/routes/product/[id]/GET.js'' ''/p/src/routes/product/[slug]/GET.js''
          ''GET'' ''/product/:slug'')"
proof -
  have z: "fullPathOf ex_by_id = ''/p/src/routes/product/[id]/GET.js''"
    "fullPathOf ex_by_slug = ''/p/src/routes/product/[slug]/GET.js''"
    "toUpperCase ''get'' = ''GET''"
    by code_simp+
  have mm: "methodOf ex_by_slug = Some ''get''" by code_simp
  have v1: "ex_by_id \<in> set [ex_by_id]" by simp
  have "\<exists>first mth.
           find (\<lambda>v. fingerprintOf (ex_cfg b) v = Some ''get:/product/:param'') [ex_by_id] = Some first
         \<and> methodOf ex_by_slug = Some mth
         \<and> (strict (ex_cfg b) \<longrightarrow>
               walk (ex_cfg b) ''/p/src/routes'' (dirPrefix []) ex_tree_params (initState [])
                 = (Some (DynamicConflict (fullPathOf first) (fullPathOf ex_by_slug)
                            (toUpperCase mth) (pathOf (ex_cfg b) ex_by_slug)),
                    snd (runVisits (ex_cfg b) [ex_by_id] (initState []))))
         \<and> (\<not> strict (ex_cfg b) \<longrightarrow>
               warnings (snd (registerVisit (ex_cfg b) ex_by_slug (snd (runVisits (ex_cfg b) [ex_by_id] (initState [])))))
                 = warnings (snd (runVisits (ex_cfg b) [ex_by_id] (initState [])))
                     @ [DynamicConflict (fullPathOf first) (fullPathOf ex_by_slug)
                                     (toUpperCase mth) (pathOf (ex_cfg b) ex_by_slug)])" for b
  proof -
    let ?cfg = "ex_cfg b"
    let ?st1 = "snd (runVisits ?cfg [ex_by_id] (initState []))"
    have "fst (runVisits ?cfg [ex_by_id] (initState [])) = None" by (cases b; code_simp)
    then have ok: "runVisits ?cfg [ex_by_id] (initState []) = (None, ?st1)"
      by (metis prod.collapse)
    have tree: "visits ''/p/src/routes'' [] ex_tree_params
                  = [ex_by_id] @ ex_by_slug # [(''/p/src/routes/product'', [''product''], ''POST.js'', bareModule)]"
      by code_simp
    have f1: "fingerprintOf ?cfg ex_by_id = Some ''get:/product/:param''" by (cases b; code_simp)
    have f2: "fingerprintOf ?cfg ex_by_slug = Some ''get:/product/:param''" by (cases b; code_simp)
    have "signatureOf ?cfg ex_by_id \<noteq> signatureOf ?cfg ex_by_slug" by (cases b; code_simp)
    then have noext: "\<forall>v\<in>set [ex_by_id]. signatureOf ?cfg v = signatureOf ?cfg ex_by_slug \<longrightarrow> extOf v = extOf ex_by_slug"
      by simp
    from dynamic_conflict_modes [OF tree ok v1 f1 f2 noext] show ?thesis
      by blast
  qed
  note r = this
  have p: "pathOf (ex_cfg b) ex_by_slug = ''/product/:slug''" for b by (cases b; code_simp)
  have w0: "warnings (snd (runVisits (ex_cfg False) [ex_by_id] (initState []))) = []" by code_simp
  have s: "strict (ex_cfg True)" "\<not> strict (ex_cfg False)" by code_simp+
  have fp: "fingerprintOf (ex_cfg b) ex_by_id = Some ''get:/product/:param''" for b by (cases b; code_simp)
  from r [of False] s w0 fp [of False] mm z p [of False]
  have 1: "warnings (snd (registerVisit (ex_cfg False) ex_by_slug
                    (snd (runVisits (ex_cfg False) [ex_by_id] (initState [])))))
     = [DynamicConflict ''/p/src/routes/product/[id]/GET.js'' ''/p/src/routes/product/[slug]/GET.js''
          ''GET'' ''/product/:slug'']"
    by auto
  from r [of True] s fp [of True] mm z p [of True]
  have 2: "fst (walk (ex_cfg True) ''/p/src/routes'' [] ex_tree_params (initState []))
     = Some (DynamicConflict ''/p/src/routes/product/[id]/GET.js'' ''/p/src/routes/product/[slug]/GET.js''
          ''GET'' ''/product/:slug'')"
    by (auto simp: dirPrefix_def)
  from 1 2 show ?thesis by simp
qed

text \<open>
  Claim C2 as written fails for two files that differ in their extension only: they share
  method and fingerprint, and without \<open>strict\<close> the walk still ends with a fatal error and
  prints no warning.
\<close>

theorem extension_pair_is_fatal_when_not_strict:
  "fingerprintOf (ex_cfg False) ex_get_js = fingerprintOf (ex_cfg False) ex_get_ts
   \<and> fullPathOf ex_get_js \<noteq> fullPathOf ex_get_ts
   \<and> visits (baseDirOf (ex_env [] False ex_tree_js_ts)) [] ex_tree_js_ts = [ex_get_js, ex_get_ts]
   \<and> registerRoutes (ex_env [] False ex_tree_js_ts) []
       = (Some (ExtensionConflict ''/p/src/routes/a/GET.js'' ''/p/src/routes/a/GET.ts'' ''GET'' ''/a''),
          [\<lparr>r_method = ''get'', r_path = ''/a'', r_middlewares = [JFun 1, JFun 2],
            r_handler = Exported (JFun 7)\<rparr>],
          [])"
  by code_simp

subsection \<open>No rollback\<close>

text \<open>
  Claim C6. When the loop body throws at a file after the walk has got through the files
  before it, \<^verbatim>\<open>registerRoutes\<close> throws that error and leaves on the application every
  route it held when the failing file was reached: the routes the application came with
  and those registered for the earlier files.
\<close>

theorem no_rollback:
  assumes routes: "e_routes ev = Some items"
    and load: "loadMiddlewares (e_localeCompare ev) (e_tsx ev) (middlewaresDirOf ev)
                 (e_middlewares ev) newLoader = (None, ld)"
    and split: "visits (baseDirOf ev) [] items = before @ v # after"
    and ok: "runVisits (configOf ev ld) before (initState app0) = (None, st1)"
    and fail: "registerVisit (configOf ev ld) v st1 = (Some e, st2)"
  shows "registerRoutes ev app0 = (Some e, app st1, warnings st2) \<and> (\<exists>new. app st1 = app0 @ new)"
proof -
  let ?cfg = "configOf ev ld"
  have "walk ?cfg (baseDirOf ev) [] items (initState app0)
          = runVisits ?cfg (visits (baseDirOf ev) [] items) (initState app0)"
    by (rule walk_visits) (simp add: dirPrefix_def)
  also from ok fail have "\<dots> = (Some e, st2)"
    by (simp add: split runVisits_append)
  finally have w: "walk ?cfg (baseDirOf ev) [] items (initState app0) = (Some e, st2)" .
  from registerVisit_app [OF fail] have a: "app st2 = app st1" by simp
  from run_app_grows [OF ok] have g: "\<exists>new. app st1 = app0 @ new" by (simp add: initState_def)
  from routes load w a g show ?thesis by (simp add: registerRoutes_def)
qed

theorem no_rollback_witness:
  "fst (registerRoutes (ex_env [] False ex_tree_fail) [])
     = Some (InvalidMiddlewares ''/p/src/routes/b/POST.js'' ''string'')
   \<and> map (\<lambda>r. (r_method r, r_path r)) (fst (snd (registerRoutes (ex_env [] False ex_tree_fail) [])))
     = [(''get'', ''/a'')]"
proof -
  let ?ev = "ex_env [] False ex_tree_fail"
  let ?cfg = "configOf ?ev ex_loader"
  let ?st1 = "snd (runVisits ?cfg [ex_get_js] (initState []))"
  let ?st2 = "snd (registerVisit ?cfg ex_post_bad ?st1)"
  have routes: "e_routes ?ev = Some ex_tree_fail" by (simp add: ex_env_def)
  have load: "loadMiddlewares (e_localeCompare ?ev) (e_tsx ?ev) (middlewaresDirOf ?ev)
                 (e_middlewares ?ev) newLoader = (None, ex_loader)"
    using ex_load by (simp add: ex_env_def middlewaresDirOf_def)
  have split: "visits (baseDirOf ?ev) [] ex_tree_fail
                 = [ex_get_js] @ ex_post_bad # [(''/p/src/routes/c'', [''c''], ''GET.js'', handlerModule 9 JUndefined)]"
    by code_simp
  have "fst (runVisits ?cfg [ex_get_js] (initState [])) = None" by code_simp
  then have ok: "runVisits ?cfg [ex_get_js] (initState []) = (None, ?st1)"
    by (metis prod.collapse)
  have "fst (registerVisit ?cfg ex_post_bad ?st1) = Some (InvalidMiddlewares ''/p/src/routes/b/POST.js'' ''string'')"
    by code_simp
  then have fail: "registerVisit ?cfg ex_post_bad ?st1
                     = (Some (InvalidMiddlewares ''/p/src/routes/b/POST.js'' ''string''), ?st2)"
    by (metis prod.collapse)
  have a: "map (\<lambda>r. (r_method r, r_path r)) (app ?st1) = [(''get'', ''/a'')]" by code_simp
  from no_rollback [OF routes load split ok fail] a show ?thesis by simp
qed

subsection \<open>Introspection against registration\<close>

lemma sim_conflicts:
  assumes "sim n st ist"
    and "checkConflicts cfg fullPath mth fileExt routePath st = (r, st')"
    and "inspectConflicts cfg fullPath mth fileExt routePath ist = (ir, ist')"
  shows "map_option inspectView r = ir \<and> sim n st' ist'"
  using assms
  by (auto simp: sim_def checkConflicts_def inspectConflicts_def Let_def
           split: option.splits if_splits)

lemma checkConflicts_not_host:
  "checkConflicts cfg fullPath mth fileExt routePath st = (Some e, st') \<Longrightarrow> \<not> isHostError e"
  by (auto dest: checkConflicts_error)

lemma inspectView_resolve:
  "resolveMiddlewares ld d = Inl e \<Longrightarrow> inspectView e = e"
  by (auto dest: resolveMiddlewares_error)

lemma inspectView_import:
  "importModule tsx p src = Inl e \<Longrightarrow> inspectView e = e"
  by (auto dest: importModule_error)

lemma inspectConflicts_warnings:
  "inspectConflicts cfg fullPath mth fileExt routePath ist = (ir, ist') \<Longrightarrow>
   \<exists>extra. i_warnings ist' = i_warnings ist @ extra"
  by (auto simp: inspectConflicts_def Let_def split: option.splits if_splits)

lemma inspectRoute_warnings:
  "inspectRoute cfg fullPath mth fileExt routePath src ist = (ir, ist') \<Longrightarrow>
   i_warnings ist' = i_warnings ist"
  by (auto simp: inspectRoute_def Let_def split: sum.splits jsval.splits)

lemma inspectFile_warnings:
  assumes "inspectFile cfg fullPath prefixPath name src ist = (ir, ist')"
  shows "\<exists>extra. i_warnings ist' = i_warnings ist @ extra"
proof (cases "methodMatch name")
  case None
  with assms show ?thesis by (simp add: inspectFile_def)
next
  case (Some ve)
  obtain verb ext where ve: "ve = (verb, ext)" by (cases ve)
  let ?m = "toLowerCase verb" and ?p = "routePathOf (normalizedPrefix cfg) prefixPath"
  obtain r2 s2 where ic: "inspectConflicts cfg fullPath ?m ext ?p ist = (r2, s2)" by fastforce
  show ?thesis
  proof (cases r2)
    case (Some e)
    with ic assms \<open>methodMatch name = Some ve\<close> ve inspectConflicts_warnings [OF ic] show ?thesis
      by (simp add: inspectFile_def Let_def)
  next
    case None
    with ic assms \<open>methodMatch name = Some ve\<close> ve
    have "inspectRoute cfg fullPath ?m ext ?p src s2 = (ir, ist')"
      by (simp add: inspectFile_def Let_def)
    from inspectRoute_warnings [OF this] inspectConflicts_warnings [OF ic] show ?thesis by simp
  qed
qed

lemma iwalk_warnings:
  "iwalk cfg currentDir prefixPath items ist = (ir, ist') \<Longrightarrow>
   \<exists>extra. i_warnings ist' = i_warnings ist @ extra"
proof (induction cfg currentDir prefixPath items ist arbitrary: ir ist' rule: iwalk.induct)
  case (1 cfg currentDir prefixPath st)
  then show ?case by simp
next
  case (2 cfg currentDir prefixPath name sub items st)
  obtain r2 s2 where iw: "iwalk cfg (path_join currentDir name) (prefixPath @ ''/'' @ name) sub st = (r2, s2)"
    by fastforce
  from "2.IH"(1) [OF iw] obtain m1 where m1: "i_warnings s2 = i_warnings st @ m1" by blast
  show ?case
  proof (cases r2)
    case (Some e)
    with iw "2.prems" m1 show ?thesis by simp
  next
    case None
    with iw "2.prems" have "iwalk cfg currentDir prefixPath items s2 = (ir, ist')" by simp
    from "2.IH"(2) [OF iw [symmetric] None this] m1 show ?thesis by auto
  qed
next
  case (3 cfg currentDir prefixPath name src items st)
  obtain r2 s2 where iw: "inspectFile cfg (path_join currentDir name) prefixPath name src st = (r2, s2)"
    by fastforce
  from inspectFile_warnings [OF iw] obtain m1 where m1: "i_warnings s2 = i_warnings st @ m1" by blast
  show ?case
  proof (cases r2)
    case (Some e)
    with iw "3.prems" m1 show ?thesis by simp
  next
    case None
    with iw "3.prems" have "iwalk cfg currentDir prefixPath items s2 = (ir, ist')" by simp
    from "3.IH" [OF iw [symmetric] None this] m1 show ?thesis by auto
  qed
qed

lemma sim_load:
  assumes "sim n st ist"
    and "loadRoute cfg fullPath mth routePath src st = (r, st')"
    and "inspectRoute cfg fullPath mth fileExt routePath src ist = (ir, ist')"
  shows "hostStopped r st' ist' \<or> (map_option inspectView r = ir \<and> sim n st' ist')"
proof (cases "importModule (tsxAvailable cfg) fullPath src")
  case (Inl e)
  with assms inspectView_import [OF Inl] show ?thesis
    by (auto simp: loadRoute_def inspectRoute_def)
next
  case (Inr m)
  show ?thesis
  proof (cases "js_or (rm_middlewares m) (JArr [])")
    case (JArr declared)
    show ?thesis
    proof (cases "resolveMiddlewares (middlewareLoader cfg) (Some declared)")
      case (Inl e)
      with assms Inr JArr inspectView_resolve [OF Inl] show ?thesis
        by (auto simp: loadRoute_def inspectRoute_def Let_def)
    next
      case (Inr mws)
      with assms \<open>importModule (tsxAvailable cfg) fullPath src = Inr m\<close> JArr show ?thesis
        by (auto simp: loadRoute_def inspectRoute_def Let_def sim_def routeKey_def infoKey_def
                       hostStopped_def split: option.splits)
    qed
  qed (use assms Inr in \<open>auto simp: loadRoute_def inspectRoute_def Let_def\<close>)
qed

lemma sim_file:
  assumes s: "sim n st ist"
    and r: "registerFile cfg fullPath prefixPath name src st = (r, st')"
    and i: "inspectFile cfg fullPath prefixPath name src ist = (ir, ist')"
  shows "hostStopped r st' ist' \<or> (map_option inspectView r = ir \<and> sim n st' ist')"
proof (cases "methodMatch name")
  case None
  with assms show ?thesis by (simp add: registerFile_def inspectFile_def)
next
  case (Some ve)
  obtain verb ext where ve: "ve = (verb, ext)" by (cases ve)
  let ?m = "toLowerCase verb" and ?p = "routePathOf (normalizedPrefix cfg) prefixPath"
  obtain r1 s1 where c: "checkConflicts cfg fullPath ?m ext ?p st = (r1, s1)" by fastforce
  obtain r2 s2 where ic: "inspectConflicts cfg fullPath ?m ext ?p ist = (r2, s2)" by fastforce
  from sim_conflicts [OF s c ic] have a: "map_option inspectView r1 = r2" "sim n s1 s2" by simp_all
  show ?thesis
  proof (cases r1)
    case (Some e)
    with a c ic r i \<open>methodMatch name = Some ve\<close> ve show ?thesis
      by (auto simp: registerFile_def inspectFile_def Let_def)
  next
    case None
    with a have r2: "r2 = None" by simp
    from None c r \<open>methodMatch name = Some ve\<close> ve
    have l: "loadRoute cfg fullPath ?m ?p src s1 = (r, st')"
      by (simp add: registerFile_def Let_def)
    from r2 ic i \<open>methodMatch name = Some ve\<close> ve
    have il: "inspectRoute cfg fullPath ?m ext ?p src s2 = (ir, ist')"
      by (simp add: inspectFile_def Let_def)
    from sim_load [OF a(2) l il] show ?thesis .
  qed
qed

lemma hostStopped_Some: "hostStopped r st ist \<Longrightarrow> \<exists>e. r = Some e \<and> isHostError e"
  by (auto simp: hostStopped_def split: option.splits)

lemma hostStopped_extend:
  "hostStopped r st ist \<Longrightarrow> i_warnings ist' = i_warnings ist @ extra \<Longrightarrow> hostStopped r st ist'"
  by (auto simp: hostStopped_def)

lemma sim_walk:
  "sim n st ist \<Longrightarrow> walk cfg currentDir prefixPath items st = (r, st') \<Longrightarrow>
   iwalk cfg currentDir prefixPath items ist = (ir, ist') \<Longrightarrow>
   hostStopped r st' ist' \<or> (map_option inspectView r = ir \<and> sim n st' ist')"
proof (induction cfg currentDir prefixPath items st arbitrary: ist r st' ir ist' rule: walk.induct)
  case (1 cfg currentDir prefixPath st)
  then show ?case by auto
next
  case (2 cfg currentDir prefixPath name sub items st)
  obtain r1 s1 where w: "walk cfg (path_join currentDir name) (prefixPath @ ''/'' @ name) sub st = (r1, s1)"
    by fastforce
  obtain r2 s2 where iw: "iwalk cfg (path_join currentDir name) (prefixPath @ ''/'' @ name) sub ist = (r2, s2)"
    by fastforce
  from "2.IH"(1) [OF "2.prems"(1) w iw]
  consider (host) "hostStopped r1 s1 s2" | (same) "map_option inspectView r1 = r2" "sim n s1 s2"
    by blast
  then show ?case
  proof cases
    case host
    from hostStopped_Some [OF host] obtain e where e: "r1 = Some e" by blast
    with w "2.prems"(2) have rs: "r = r1" "st' = s1" by simp_all
    show ?thesis
    proof (cases r2)
      case (Some e2)
      with iw "2.prems"(3) host rs show ?thesis by simp
    next
      case None
      with iw "2.prems"(3) have "iwalk cfg currentDir prefixPath items s2 = (ir, ist')" by simp
      from iwalk_warnings [OF this] obtain extra where "i_warnings ist' = i_warnings s2 @ extra" by blast
      from hostStopped_extend [OF host this] rs show ?thesis by simp
    qed
  next
    case same
    show ?thesis
    proof (cases r1)
      case (Some e)
      with same w iw "2.prems" show ?thesis by auto
    next
      case None
      with same have r2: "r2 = None" by simp
      from None w "2.prems"(2) have w2: "walk cfg currentDir prefixPath items s1 = (r, st')" by simp
      from r2 iw "2.prems"(3) have iw2: "iwalk cfg currentDir prefixPath items s2 = (ir, ist')" by simp
      from "2.IH"(2) [OF w [symmetric] None same(2) w2 iw2] show ?thesis .
    qed
  qed
next
  case (3 cfg currentDir prefixPath name src items st)
  obtain r1 s1 where w: "registerFile cfg (path_join currentDir name) prefixPath name src st = (r1, s1)"
    by fastforce
  obtain r2 s2 where iw: "inspectFile cfg (path_join currentDir name) prefixPath name src ist = (r2, s2)"
    by fastforce
  from sim_file [OF "3.prems"(1) w iw]
  consider (host) "hostStopped r1 s1 s2" | (same) "map_option inspectView r1 = r2" "sim n s1 s2"
    by blast
  then show ?case
  proof cases
    case host
    from hostStopped_Some [OF host] obtain e where e: "r1 = Some e" by blast
    with w "3.prems"(2) have rs: "r = r1" "st' = s1" by simp_all
    show ?thesis
    proof (cases r2)
      case (Some e2)
      with iw "3.prems"(3) host rs show ?thesis by simp
    next
      case None
      with iw "3.prems"(3) have "iwalk cfg currentDir prefixPath items s2 = (ir, ist')" by simp
      from iwalk_warnings [OF this] obtain extra where "i_warnings ist' = i_warnings s2 @ extra" by blast
      from hostStopped_extend [OF host this] rs show ?thesis by simp
    qed
  next
    case same
    show ?thesis
    proof (cases r1)
      case (Some e)
      with same w iw "3.prems" show ?thesis by auto
    next
      case None
      with same have r2: "r2 = None" by simp
      from None w "3.prems"(2) have w2: "walk cfg currentDir prefixPath items s1 = (r, st')" by simp
      from r2 iw "3.prems"(3) have iw2: "iwalk cfg currentDir prefixPath items s2 = (ir, ist')" by simp
      from "3.IH" [OF w [symmetric] None same(2) w2 iw2] show ?thesis .
    qed
  qed
qed

lemma loadFiles_no_conflict:
  "loadFiles tsx dir files ld = (Some e, ld') \<Longrightarrow> inspectView e = e \<and> \<not> isHostError e"
  by (induction tsx dir files ld rule: loadFiles.induct)
     (auto simp: Let_def importMiddleware_def split: sum.splits if_splits source.splits bool.splits)

lemma loadMiddlewares_no_conflict:
  "loadMiddlewares cmp tsx dir mwDir ld = (Some e, ld') \<Longrightarrow> inspectView e = e \<and> \<not> isHostError e"
  by (auto simp: loadMiddlewares_def split: option.splits prod.splits if_splits dest: loadFiles_no_conflict)

lemma walk_app_grows:
  "walk cfg (baseDirOf ev) [] items (initState app0) = (r, st) \<Longrightarrow> \<exists>new. app st = app0 @ new"
  using run_app_grows [of cfg "visits (baseDirOf ev) [] items" "initState app0" r st]
    walk_visits [of "[]" "[]" cfg "baseDirOf ev" items "initState app0"]
  by (auto simp: dirPrefix_def initState_def)

text \<open>
  Claim C5, as the code has it. For every project, options and application: when
  \<^verbatim>\<open>registerRoutes\<close> returns, \<^verbatim>\<open>inspectRoutes\<close> returns a report, having printed the same
  dynamic-conflict warnings in the same order, and the (method, path) pairs of the report
  are those of the routes \<^verbatim>\<open>registerRoutes\<close> has added to the application, with the same
  multiplicities. When \<^verbatim>\<open>registerRoutes\<close> throws an error of its own (an extension
  conflict, a strict dynamic conflict, or a file that cannot be loaded),
  \<^verbatim>\<open>inspectRoutes\<close> throws the same error in its own wording, naming the same files, after
  the same warnings; it returns no report then, while the routes added before the failure
  stay on the application. When the error is one thrown by a route method of the
  application, which \<^verbatim>\<open>inspectRoutes\<close> never calls, the warnings \<^verbatim>\<open>registerRoutes\<close> has
  printed are the first of those \<^verbatim>\<open>inspectRoutes\<close> prints, and no more is said of its
  outcome.
\<close>

theorem inspect_agrees_with_register:
  "(fst (registerRoutes ev app0) = None \<longrightarrow>
      (\<exists>rep new. inspectRoutes ev = (Inr rep, map inspectView (snd (snd (registerRoutes ev app0))))
         \<and> fst (snd (registerRoutes ev app0)) = app0 @ new
         \<and> mset (map infoKey (rp_routes rep)) = mset (map routeKey new)
         \<and> set (map infoKey (rp_routes rep)) = set (map routeKey new)))
   \<and> (\<forall>e. fst (registerRoutes ev app0) = Some e \<longrightarrow> \<not> isHostError e \<longrightarrow>
         inspectRoutes ev = (Inl (inspectView e), map inspectView (snd (snd (registerRoutes ev app0))))
         \<and> (\<exists>new. fst (snd (registerRoutes ev app0)) = app0 @ new))
   \<and> (\<forall>e. fst (registerRoutes ev app0) = Some e \<longrightarrow> isHostError e \<longrightarrow>
         (\<exists>extra. snd (inspectRoutes ev)
                    = map inspectView (snd (snd (registerRoutes ev app0))) @ extra)
         \<and> (\<exists>new. fst (snd (registerRoutes ev app0)) = app0 @ new))"
proof (cases "e_routes ev")
  case None
  then show ?thesis by (simp add: registerRoutes_def inspectRoutes_def)
next
  case (Some items)
  obtain lr ld where l: "loadMiddlewares (e_localeCompare ev) (e_tsx ev) (middlewaresDirOf ev)
                          (e_middlewares ev) newLoader = (lr, ld)" by fastforce
  show ?thesis
  proof (cases lr)
    case (Some e)
    from loadMiddlewares_no_conflict [OF l [unfolded Some]]
    have "inspectView e = e" "\<not> isHostError e" by simp_all
    with Some l \<open>e_routes ev = Some items\<close> show ?thesis
      by (simp add: registerRoutes_def inspectRoutes_def)
  next
    case None
    let ?cfg = "configOf ev ld"
    obtain r st where w: "walk ?cfg (baseDirOf ev) [] items (initState app0) = (r, st)" by fastforce
    obtain ir ist where iw: "iwalk ?cfg (baseDirOf ev) [] items initIState = (ir, ist)" by fastforce
    have reg: "registerRoutes ev app0 = (r, app st, warnings st)"
      using \<open>e_routes ev = Some items\<close> l None w by (simp add: registerRoutes_def)
    from walk_app_grows [OF w] obtain new where new: "app st = app0 @ new" by blast
    have iwarn: "snd (inspectRoutes ev) = i_warnings ist"
      using \<open>e_routes ev = Some items\<close> l None iw
      by (cases ir) (simp_all add: inspectRoutes_def Let_def)
    have "sim (length app0) (initState app0) initIState"
      by (simp add: sim_def initState_def initIState_def)
    from sim_walk [OF this w iw]
    consider (host) "hostStopped r st ist" | (same) "map_option inspectView r = ir" "sim (length app0) st ist"
      by blast
    then show ?thesis
    proof cases
      case host
      then obtain e extra where "r = Some e" "isHostError e"
        "i_warnings ist = map inspectView (warnings st) @ extra"
        by (auto simp: hostStopped_def split: option.splits)
      with reg iwarn new show ?thesis by simp
    next
      case same
      from same(2) new have k: "map routeKey new = map infoKey (i_routes ist)" by (simp add: sim_def)
      from same(2) have ws: "map inspectView (warnings st) = i_warnings ist" by (simp add: sim_def)
      show ?thesis
      proof (cases r)
        case (Some e)
        with same(1) have "ir = Some (inspectView e)" by auto
        with \<open>e_routes ev = Some items\<close> l \<open>lr = None\<close> iw
        have "inspectRoutes ev = (Inl (inspectView e), i_warnings ist)" by (simp add: inspectRoutes_def)
        with reg Some ws new show ?thesis by auto
      next
        case None
        with same(1) have ir: "ir = None" by simp
        let ?sorted = "sort_by (routeOrder (e_localeCompare ev)) (i_routes ist)"
        from ir \<open>e_routes ev = Some items\<close> l \<open>lr = None\<close> iw
        obtain rep where rep: "inspectRoutes ev = (Inr rep, i_warnings ist)" and rr: "rp_routes rep = ?sorted"
          by (simp add: inspectRoutes_def Let_def)
        have m: "mset (map infoKey (rp_routes rep)) = mset (map routeKey new)"
          by (simp add: rr k mset_sort_by)
        then have "set (map infoKey (rp_routes rep)) = set (map routeKey new)"
          by (rule mset_eq_setD)
        with m reg rep None ws new show ?thesis by auto
      qed
    qed
  qed
qed

theorem inspect_agrees_with_register_witness:
  "fst (registerRoutes (ex_env [] False ex_tree_params) []) = None
   \<and> map inspectView (snd (snd (registerRoutes (ex_env [] False ex_tree_params) [])))
       = [InspectDynamicConflict ''/p/src/routes/product/[id]/GET.js''
            ''/p/src/routes/product/[slug]/GET.js'']
   \<and> set (map routeKey (fst (snd (registerRoutes (ex_env [] False ex_tree_params) []))))
       = {(''GET'', ''/product/:id''), (''GET'', ''/product/:slug''), (''POST'', ''/product'')}
   \<and> fst (inspectRoutes (ex_env [] True ex_tree_params))
       = Inl (InspectDynamicConflict ''/p/src/routes/product/[id]/GET.js''
                ''/p/src/routes/product/[slug]/GET.js'')
   \<and> (\<exists>extra. snd (inspectRoutes (ex_env [] False ex_tree_object))
                  = map inspectView (snd (snd (registerRoutes (ex_env [] False ex_tree_object) []))) @ extra)"
proof -
  let ?ev = "ex_env [] False ex_tree_params"
  let ?sv = "ex_env [] True ex_tree_params"
  let ?ov = "ex_env [] False ex_tree_object"
  have r0: "fst (registerRoutes ?ev []) = None" by code_simp
  note t = inspect_agrees_with_register [of ?ev "[]"]
  from t r0 obtain rep new where
    i: "inspectRoutes ?ev = (Inr rep, map inspectView (snd (snd (registerRoutes ?ev []))))"
    and a: "fst (snd (registerRoutes ?ev [])) = [] @ new"
    and s: "set (map infoKey (rp_routes rep)) = set (map routeKey new)"
    by blast
  have "map infoKey (rp_routes (projr (fst (inspectRoutes ?ev))))
              = [(''GET'', ''/product/:id''), (''GET'', ''/product/:slug''), (''POST'', ''/product'')]"
    by code_simp
  with i have i2: "map infoKey (rp_routes rep)
              = [(''GET'', ''/product/:id''), (''GET'', ''/product/:slug''), (''POST'', ''/product'')]"
    by simp
  have i3: "snd (inspectRoutes ?ev)
              = [InspectDynamicConflict ''/p/src/routes/product/[id]/GET.js''
                   ''/p/src/routes/product/[slug]/GET.js'']"
    by code_simp
  with i have 2: "map inspectView (snd (snd (registerRoutes ?ev [])))
       = [InspectDynamicConflict ''/p/src/routes/product/[id]/GET.js''
            ''/p/src/routes/product/[slug]/GET.js'']" by simp
  from a s i2 have 3: "set (map routeKey (fst (snd (registerRoutes ?ev []))))
       = {(''GET'', ''/product/:id''), (''GET'', ''/product/:slug''), (''POST'', ''/product'')}"
    by simp
  have r1: "fst (registerRoutes ?sv [])
              = Some (DynamicConflict ''/p/src/routes/product/[id]/GET.js''
                        ''/p/src/routes/product/[slug]/GET.js'' ''GET'' ''/product/:slug'')"
    by code_simp
  from inspect_agrees_with_register [of ?sv "[]"] r1
  have 4: "fst (inspectRoutes ?sv)
       = Inl (InspectDynamicConflict ''/p/src/routes/product/[id]/GET.js''
                ''/p/src/routes/product/[slug]/GET.js'')"
    by simp
  have r2: "fst (registerRoutes ?ov []) = Some (HostError ''Route.get() requires a callback function'')"
    by code_simp
  from inspect_agrees_with_register [of ?ov "[]"] r2
  have 5: "\<exists>extra. snd (inspectRoutes ?ov)
                  = map inspectView (snd (snd (registerRoutes ?ov []))) @ extra"
    by simp
  from r0 2 3 4 5 show ?thesis by blast
qed

text \<open>
  Claim C5 as written fails in two ways. An application that throws when a callback is
  not a function rejects the route whose default export is an object: \<^verbatim>\<open>registerRoutes\<close>
  throws and hands no route over, and \<^verbatim>\<open>inspectRoutes\<close> returns a report with that route.
  And when a later file makes both throw, the route of the earlier file has been handed
  to the application, and \<^verbatim>\<open>inspectRoutes\<close> reports no route at all.
\<close>

theorem inspect_reports_what_register_rejects:
  "fst (registerRoutes (ex_env [] False ex_tree_object) []) = Some (HostError ''Route.get() requires a callback function'')
   \<and> fst (snd (registerRoutes (ex_env [] False ex_tree_object) [])) = []
   \<and> \<not> isl (fst (inspectRoutes (ex_env [] False ex_tree_object)))
   \<and> map infoKey (rp_routes (projr (fst (inspectRoutes (ex_env [] False ex_tree_object)))))
       = [(''GET'', ''/a'')]
   \<and> fst (registerRoutes (ex_env [] False ex_tree_fail) [])
       = Some (InvalidMiddlewares ''/p/src/routes/b/POST.js'' ''string'')
   \<and> map routeKey (fst (snd (registerRoutes (ex_env [] False ex_tree_fail) []))) = [(''GET'', ''/a'')]
   \<and> fst (inspectRoutes (ex_env [] False ex_tree_fail))
       = Inl (InspectInvalidMiddlewares ''/p/src/routes/b/POST.js'')"
  by code_simp

subsection \<open>The report of introspection\<close>

lemma runInspect_append:
  "runInspect cfg (xs @ ys) ist =
     (case runInspect cfg xs ist of (Some e, ist') \<Rightarrow> (Some e, ist') | (None, ist') \<Rightarrow> runInspect cfg ys ist')"
proof (induction xs arbitrary: ist)
  case Nil
  then show ?case by simp
next
  case (Cons v xs)
  then show ?case
    by (auto split: prod.splits option.splits)
qed

lemma iwalk_visits:
  "prefixPath = dirPrefix folders \<Longrightarrow>
   iwalk cfg currentDir prefixPath items ist = runInspect cfg (visits currentDir folders items) ist"
proof (induction cfg currentDir prefixPath items ist arbitrary: folders rule: iwalk.induct)
  case (1 cfg currentDir prefixPath ist)
  then show ?case by simp
next
  case (2 cfg currentDir prefixPath name sub items ist)
  have p: "prefixPath @ ''/'' @ name = dirPrefix (folders @ [name])"
    using "2.prems" by (simp add: dirPrefix_snoc)
  obtain r ist' where w: "iwalk cfg (path_join currentDir name) (prefixPath @ ''/'' @ name) sub ist = (r, ist')"
    by fastforce
  with "2.IH"(1) [OF p]
  have v: "runInspect cfg (visits (path_join currentDir name) (folders @ [name]) sub) ist = (r, ist')"
    by simp
  show ?case
  proof (cases r)
    case None
    from "2.IH"(2) [OF w [symmetric] None "2.prems"] w v None show ?thesis
      by (simp add: runInspect_append)
  next
    case (Some e)
    with w v show ?thesis by (simp add: runInspect_append)
  qed
next
  case (3 cfg currentDir prefixPath name src items ist)
  show ?case
  proof (cases "inspectFile cfg (path_join currentDir name) prefixPath name src ist")
    case (Pair r ist')
    show ?thesis
    proof (cases r)
      case None
      with Pair "3.IH" [OF Pair [symmetric] None "3.prems"] "3.prems" show ?thesis
        by (simp add: inspectVisit_def)
    next
      case (Some e)
      with Pair "3.prems" show ?thesis by (simp add: inspectVisit_def)
    qed
  qed
qed

lemma inspectRoute_entry:
  assumes "inspectRoute cfg fullPath mth fileExt routePath src ist = (r, ist')"
  shows "(r \<noteq> None \<longrightarrow> ist' = ist)
       \<and> (r = None \<longrightarrow> (\<exists>m ri. src = Evaluates m \<and> i_routes ist' = i_routes ist @ [ri]
              \<and> ri_method ri = toUpperCase mth \<and> ri_path ri = routePath
              \<and> ri_file ri = relative_path (projectRoot cfg) fullPath
              \<and> ri_handler ri = (if truthy (rm_default m) then ''default'' else ''handler'')))"
  using assms
  by (auto simp: inspectRoute_def importModule_def Let_def split: sum.splits jsval.splits if_splits source.splits)

lemma inspectFile_entry:
  assumes i: "inspectFile cfg fullPath prefixPath name src ist = (r, ist')"
  shows "(\<exists>added. i_routes ist' = i_routes ist @ added)
       \<and> (r = None \<longrightarrow> methodMatch name \<noteq> None \<longrightarrow>
            (\<exists>m ri. src = Evaluates m \<and> ri \<in> set (i_routes ist')
              \<and> ri_path ri = routePathOf (normalizedPrefix cfg) prefixPath
              \<and> ri_file ri = relative_path (projectRoot cfg) fullPath
              \<and> ri_handler ri = (if truthy (rm_default m) then ''default'' else ''handler'')))"
proof (cases "methodMatch name")
  case None
  with i show ?thesis by (simp add: inspectFile_def)
next
  case (Some ve)
  obtain verb ext where ve: "ve = (verb, ext)" by (cases ve)
  let ?m = "toLowerCase verb" and ?p = "routePathOf (normalizedPrefix cfg) prefixPath"
  obtain r2 s2 where ic: "inspectConflicts cfg fullPath ?m ext ?p ist = (r2, s2)" by fastforce
  show ?thesis
  proof (cases r2)
    case (Some e)
    with ic i \<open>methodMatch name = Some ve\<close> ve inspectConflicts_routes [OF ic] show ?thesis
      by (auto simp: inspectFile_def Let_def)
  next
    case None
    with ic i \<open>methodMatch name = Some ve\<close> ve
    have "inspectRoute cfg fullPath ?m ext ?p src s2 = (r, ist')"
      by (simp add: inspectFile_def Let_def)
    note e = inspectRoute_entry [OF this] and c = inspectConflicts_routes [OF ic]
    show ?thesis
    proof (cases r)
      case (Some err)
      with e c show ?thesis by simp
    next
      case None
      with e obtain m ri where m: "src = Evaluates m" and a: "i_routes ist' = i_routes s2 @ [ri]"
        and f: "ri_path ri = ?p" "ri_file ri = relative_path (projectRoot cfg) fullPath"
          "ri_handler ri = (if truthy (rm_default m) then ''default'' else ''handler'')"
        by blast
      from a have "ri \<in> set (i_routes ist')" by simp
      with m f have "\<exists>m ri. src = Evaluates m \<and> ri \<in> set (i_routes ist')
              \<and> ri_path ri = ?p \<and> ri_file ri = relative_path (projectRoot cfg) fullPath
              \<and> ri_handler ri = (if truthy (rm_default m) then ''default'' else ''handler'')"
        by blast
      moreover from a c have "\<exists>added. i_routes ist' = i_routes ist @ added" by simp
      ultimately show ?thesis by blast
    qed
  qed
qed

lemma runInspect_grows:
  "runInspect cfg vs ist = (r, ist') \<Longrightarrow> set (i_routes ist) \<subseteq> set (i_routes ist')"
proof (induction vs arbitrary: ist)
  case Nil
  then show ?case by simp
next
  case (Cons v vs)
  obtain r1 s1 where v: "inspectVisit cfg v ist = (r1, s1)" by fastforce
  obtain c f n s where "v = (c, f, n, s)" by (cases v)
  with v inspectFile_entry [of cfg "path_join c n" "dirPrefix f" n s ist r1 s1]
  have g: "set (i_routes ist) \<subseteq> set (i_routes s1)" by (auto simp: inspectVisit_def)
  show ?case
  proof (cases r1)
    case None
    with v Cons.prems have "runInspect cfg vs s1 = (r, ist')" by simp
    from Cons.IH [OF this] g show ?thesis by blast
  next
    case (Some e)
    with v Cons.prems g show ?thesis by auto
  qed
qed

lemma runInspect_entries:
  "runInspect cfg vs ist = (None, ist') \<Longrightarrow> (dir, folders, name, Evaluates m) \<in> set vs \<Longrightarrow>
   methodMatch name \<noteq> None \<Longrightarrow>
   \<exists>ri\<in>set (i_routes ist').
      ri_path ri = routePathOf (normalizedPrefix cfg) (dirPrefix folders)
    \<and> ri_file ri = relative_path (projectRoot cfg) (path_join dir name)
    \<and> ri_handler ri = (if truthy (rm_default m) then ''default'' else ''handler'')"
proof (induction vs arbitrary: ist)
  case Nil
  then show ?case by simp
next
  case (Cons v vs)
  from Cons.prems(1) obtain s1 where v: "inspectVisit cfg v ist = (None, s1)"
    and r: "runInspect cfg vs s1 = (None, ist')"
    by (auto split: prod.splits option.splits)
  show ?case
  proof (cases "v = (dir, folders, name, Evaluates m)")
    case True
    with v have "inspectFile cfg (path_join dir name) (dirPrefix folders) name (Evaluates m) ist = (None, s1)"
      by (simp add: inspectVisit_def)
    from inspectFile_entry [OF this] Cons.prems(3)
    obtain ri where "ri \<in> set (i_routes s1)"
      "ri_path ri = routePathOf (normalizedPrefix cfg) (dirPrefix folders)"
      "ri_file ri = relative_path (projectRoot cfg) (path_join dir name)"
      "ri_handler ri = (if truthy (rm_default m) then ''default'' else ''handler'')"
      by auto
    with runInspect_grows [OF r] show ?thesis by blast
  next
    case False
    with Cons.prems(2) have "(dir, folders, name, Evaluates m) \<in> set vs" by simp
    from Cons.IH [OF r this Cons.prems(3)] show ?thesis .
  qed
qed

lemma set_sort_by: "set (sort_by cmp xs) = set xs"
  using mset_sort_by [of cmp xs] by (metis set_mset_mset)

lemma inspectRoutes_report:
  assumes "fst (inspectRoutes ev) = Inr rep" and "e_routes ev = Some items"
  shows "\<exists>ld ist. runInspect (configOf ev ld) (visits (baseDirOf ev) [] items) initIState = (None, ist)
           \<and> set (rp_routes rep) = set (i_routes ist)"
proof -
  obtain lr ld where l: "loadMiddlewares (e_localeCompare ev) (e_tsx ev) (middlewaresDirOf ev)
                          (e_middlewares ev) newLoader = (lr, ld)" by fastforce
  from assms l have lr: "lr = None"
    by (cases lr) (simp_all add: inspectRoutes_def)
  obtain ir ist where iw: "iwalk (configOf ev ld) (baseDirOf ev) [] items initIState = (ir, ist)"
    by fastforce
  from assms l lr iw have ir: "ir = None"
    by (cases ir) (simp_all add: inspectRoutes_def)
  from assms l lr iw ir
  have "rp_routes rep = sort_by (routeOrder (e_localeCompare ev)) (i_routes ist)"
    by (auto simp: inspectRoutes_def Let_def)
  then have "set (rp_routes rep) = set (i_routes ist)" by (simp add: set_sort_by)
  moreover from iw ir iwalk_visits [of "[]" "[]" "configOf ev ld" "baseDirOf ev" items initIState]
  have "runInspect (configOf ev ld) (visits (baseDirOf ev) [] items) initIState = (None, ist)"
    by (simp add: dirPrefix_def)
  ultimately show ?thesis by blast
qed

text \<open>
  Claim C10. \<^verbatim>\<open>inspectRoutes\<close> never throws the missing-handler error. For a module that
  exports neither a default nor a \<^verbatim>\<open>handler\<close>, the loop body of its walk does not throw it
  either, and when it succeeds, the entry it adds has the handler field \<^verbatim>\<open>"handler"\<close>. And
  whenever \<^verbatim>\<open>inspectRoutes\<close> returns a report, every method file of the tree with such a
  module has an entry among the routes of the report, with the path of the file relative
  to the project root, its route path and the handler field \<^verbatim>\<open>"handler"\<close>.
\<close>

theorem inspect_never_reports_missing_handler:
  assumes "\<not> truthy (rm_default m)" and "\<not> truthy (rm_handler m)"
  shows "(\<forall>p. fst (inspectRoutes ev) \<noteq> Inl (NoHandlerExported p))
       \<and> (\<forall>p. fst (inspectFile cfg fullPath prefixPath name (Evaluates m) st) \<noteq> Some (NoHandlerExported p))
       \<and> (fst (inspectFile cfg fullPath prefixPath name (Evaluates m) st) = None \<and> methodMatch name \<noteq> None
            \<longrightarrow> (\<exists>ri. i_routes (snd (inspectFile cfg fullPath prefixPath name (Evaluates m) st))
                          = i_routes st @ [ri]
                     \<and> ri_path ri = routePathOf (normalizedPrefix cfg) prefixPath
                     \<and> ri_handler ri = ''handler''))
       \<and> (\<forall>rep items dir folders.
             fst (inspectRoutes ev) = Inr rep \<and> e_routes ev = Some items
             \<and> (dir, folders, name, Evaluates m) \<in> set (visits (baseDirOf ev) [] items)
             \<and> methodMatch name \<noteq> None
            \<longrightarrow> (\<exists>ri\<in>set (rp_routes rep).
                     ri_file ri = relative_path (e_projectRoot ev) (path_join dir name)
                   \<and> ri_path ri = routePathOf (strip_trailing_slashes (e_prefix ev)) (dirPrefix folders)
                   \<and> ri_handler ri = ''handler''))"
proof -
  let ?ins = "inspectFile cfg fullPath prefixPath name (Evaluates m) st"
  have 3: "\<exists>ri. i_routes (snd ?ins) = i_routes st @ [ri]
              \<and> ri_path ri = routePathOf (normalizedPrefix cfg) prefixPath \<and> ri_handler ri = ''handler''"
    if ok: "fst ?ins = None" and mm: "methodMatch name \<noteq> None"
  proof -
    from mm obtain verb ext where ve: "methodMatch name = Some (verb, ext)" by auto
    let ?m = "toLowerCase verb" and ?p = "routePathOf (normalizedPrefix cfg) prefixPath"
    obtain r1 s1 where c: "inspectConflicts cfg fullPath ?m ext ?p st = (r1, s1)" by fastforce
    from ok ve c have r1: "r1 = None"
      by (cases r1) (auto simp: inspectFile_def Let_def)
    with ve c have e: "?ins = inspectRoute cfg fullPath ?m ext ?p (Evaluates m) s1"
      by (simp add: inspectFile_def Let_def)
    with ok have "inspectRoute cfg fullPath ?m ext ?p (Evaluates m) s1 = (None, snd ?ins)"
      by (metis prod.collapse)
    from inspectRoute_handler_field [OF assms(1) this] inspectConflicts_routes [OF c] show ?thesis
      by auto
  qed
  have 4: "\<exists>ri\<in>set (rp_routes rep).
             ri_file ri = relative_path (e_projectRoot ev) (path_join dir name)
           \<and> ri_path ri = routePathOf (strip_trailing_slashes (e_prefix ev)) (dirPrefix folders)
           \<and> ri_handler ri = ''handler''"
    if rep: "fst (inspectRoutes ev) = Inr rep" and items: "e_routes ev = Some items"
      and v: "(dir, folders, name, Evaluates m) \<in> set (visits (baseDirOf ev) [] items)"
      and mm: "methodMatch name \<noteq> None" for rep items dir folders
  proof -
    from inspectRoutes_report [OF rep items] obtain ld ist where
      run: "runInspect (configOf ev ld) (visits (baseDirOf ev) [] items) initIState = (None, ist)"
      and s: "set (rp_routes rep) = set (i_routes ist)" by blast
    from runInspect_entries [OF run v mm] assms(1)
    have "\<exists>ri\<in>set (i_routes ist).
            ri_path ri = routePathOf (strip_trailing_slashes (e_prefix ev)) (dirPrefix folders)
          \<and> ri_file ri = relative_path (e_projectRoot ev) (path_join dir name)
          \<and> ri_handler ri = ''handler''"
      by (simp add: configOf_def)
    with s show ?thesis by blast
  qed
  from inspectRoutes_no_missing_handler [of ev]
    inspectFile_no_missing_handler [of cfg fullPath prefixPath name "Evaluates m" st] 3 4
  show ?thesis by blast
qed

theorem inspect_never_reports_missing_handler_witness:
  "(''src/routes/product/POST.js'', ''/product'', ''handler'')
     \<in> set (map (\<lambda>ri. (ri_file ri, ri_path ri, ri_handler ri))
              (rp_routes (projr (fst (inspectRoutes (ex_env [] False ex_tree_params))))))
   \<and> map (\<lambda>ri. (ri_method ri, ri_path ri, ri_handler ri))
       (i_routes (snd (inspectFile (ex_cfg False) ''/p/src/routes/a/GET.js'' ''/a'' ''GET.js'' bareModule initIState)))
     = [(''GET'', ''/a'', ''handler'')]"
proof -
  let ?ev = "ex_env [] False ex_tree_params"
  let ?m = "\<lparr>rm_default = JUndefined, rm_handler = JUndefined, rm_middlewares = JUndefined\<rparr>"
  have t: "\<not> truthy (rm_default ?m)" "\<not> truthy (rm_handler ?m)" by simp_all
  have ok: "fst (inspectFile (ex_cfg False) ''/p/src/routes/a/GET.js'' ''/a'' ''GET.js'' (Evaluates ?m) initIState) = None"
    by code_simp
  have gm: "methodMatch ''GET.js'' \<noteq> None" by code_simp
  from inspect_never_reports_missing_handler [OF t, where cfg = "ex_cfg False"
      and fullPath = "''/p/src/routes/a/GET.js''" and prefixPath = "''/a''" and name = "''GET.js''"
      and st = initIState, THEN conjunct2, THEN conjunct2, THEN conjunct1] ok gm
  obtain r0 where r0: "i_routes (snd (inspectFile (ex_cfg False) ''/p/src/routes/a/GET.js'' ''/a'' ''GET.js''
                          (Evaluates ?m) initIState)) = i_routes initIState @ [r0]"
    "ri_path r0 = routePathOf (normalizedPrefix (ex_cfg False)) ''/a''" "ri_handler r0 = ''handler''"
    by blast
  have "map ri_method (i_routes (snd (inspectFile (ex_cfg False) ''/p/src/routes/a/GET.js'' ''/a'' ''GET.js''
                          (Evaluates ?m) initIState))) = [''GET'']"
    by code_simp
  with r0(1) have r0m: "ri_method r0 = ''GET''" by (simp add: initIState_def)
  have "routePathOf (normalizedPrefix (ex_cfg False)) ''/a'' = ''/a''" by code_simp
  with r0 r0m have second: "map (\<lambda>ri. (ri_method ri, ri_path ri, ri_handler ri))
       (i_routes (snd (inspectFile (ex_cfg False) ''/p/src/routes/a/GET.js'' ''/a'' ''GET.js'' bareModule initIState)))
     = [(''GET'', ''/a'', ''handler'')]"
    by (simp add: bareModule_def initIState_def)
  have "\<not> isl (fst (inspectRoutes ?ev))" by code_simp
  then obtain rep where i1: "fst (inspectRoutes ?ev) = Inr rep"
    by (cases "fst (inspectRoutes ?ev)") auto
  have items: "e_routes ?ev = Some ex_tree_params" by (simp add: ex_env_def)
  have "(''/p/src/routes/product'', [''product''], ''POST.js'', bareModule)
          \<in> set (visits (baseDirOf ?ev) [] ex_tree_params)"
    by code_simp
  then have v: "(''/p/src/routes/product'', [''product''], ''POST.js'', Evaluates ?m)
          \<in> set (visits (baseDirOf ?ev) [] ex_tree_params)"
    by (simp add: bareModule_def)
  have mm: "methodMatch ''POST.js'' \<noteq> None" by code_simp
  note t4 = inspect_never_reports_missing_handler [OF t, where ev = ?ev and name = "''POST.js''",
              THEN conjunct2, THEN conjunct2, THEN conjunct2]
  from t4 i1 items v mm obtain ri where ri: "ri \<in> set (rp_routes rep)"
    "ri_file ri = relative_path (e_projectRoot ?ev) (path_join ''/p/src/routes/product'' ''POST.js'')"
    "ri_path ri = routePathOf (strip_trailing_slashes (e_prefix ?ev)) (dirPrefix [''product''])"
    "ri_handler ri = ''handler''"
    by blast
  have f: "relative_path (e_projectRoot ?ev) (path_join ''/p/src/routes/product'' ''POST.js'')
             = ''src/routes/product/POST.js''"
    by code_simp
  have p: "routePathOf (strip_trailing_slashes (e_prefix ?ev)) (dirPrefix [''product'']) = ''/product''"
    by code_simp
  from ri f p have "(''src/routes/product/POST.js'', ''/product'', ''handler'')
     \<in> set (map (\<lambda>ri. (ri_file ri, ri_path ri, ri_handler ri)) (rp_routes rep))"
    by force
  with i1 second show ?thesis by simp
qed

end
